theory Spec2Isabelle
  imports Main "HOL-Library.Sublist"
begin

section \<open>Python strings\<close>

text \<open>
  Python \<open>str\<close> values are modelled as \<open>string\<close>. The three characters that cannot be
  written inside a literal get names.
\<close>

definition dq :: char where
  "dq = CHR 0x22"

definition sq :: char where
  "sq = CHR 0x27"

definition nl :: char where
  "nl = CHR 0x0A"

text \<open>Python's \<open>sub in s\<close> on strings: \<open>sub\<close> occurs in \<open>s\<close> as a contiguous block.\<close>

fun str_in :: "string \<Rightarrow> string \<Rightarrow> bool" where
  "str_in sub [] = (sub = [])"
| "str_in sub (c # cs) = (prefix sub (c # cs) \<or> str_in sub cs)"

text \<open>
  Python's \<open>s.replace(old, new)\<close>: every non-overlapping occurrence of \<open>old\<close>, scanning
  from the left, is replaced by \<open>new\<close>. (With an empty \<open>old\<close> Python inserts \<open>new\<close>
  before every character and at the end.)
\<close>

function str_replace :: "string \<Rightarrow> string \<Rightarrow> string \<Rightarrow> string" where
  "str_replace old new [] = (if old = [] then new else [])"
| "str_replace old new (c # cs) =
     (if old = [] then new @ c # str_replace old new cs
      else if prefix old (c # cs)
        then new @ str_replace old new (drop (length old) (c # cs))
      else c # str_replace old new cs)"
  by pat_completeness auto
termination
  by (relation "measure (\<lambda>(old, new, s). length s)") (auto simp: neq_Nil_conv)

text \<open>Python's \<open>s.upper()\<close> on the ASCII letters; every other character is kept.\<close>

definition upper_char :: "char \<Rightarrow> char" where
  "upper_char c =
     (case map_of (zip ''abcdefghijklmnopqrstuvwxyz'' ''ABCDEFGHIJKLMNOPQRSTUVWXYZ'') c of
        None \<Rightarrow> c
      | Some u \<Rightarrow> u)"

definition upper :: "string \<Rightarrow> string" where
  "upper s = map upper_char s"

text \<open>Python's \<open>s.lower()\<close>, likewise.\<close>

definition lower_char :: "char \<Rightarrow> char" where
  "lower_char c =
     (case map_of (zip ''ABCDEFGHIJKLMNOPQRSTUVWXYZ'' ''abcdefghijklmnopqrstuvwxyz'') c of
        None \<Rightarrow> c
      | Some l \<Rightarrow> l)"

definition lower :: "string \<Rightarrow> string" where
  "lower s = map lower_char s"

text \<open>Python's \<open>sep.join(xs)\<close>.\<close>

fun str_join :: "string \<Rightarrow> string list \<Rightarrow> string" where
  "str_join sep [] = []"
| "str_join sep [s] = s"
| "str_join sep (s # t # ss) = s @ sep @ str_join sep (t # ss)"

section \<open>Identifiers\<close>

text \<open>
  Modelled from the spec: \<open>quote_ident\<close> is imported from
  \<open>verticapy.sql._utils._format\<close>, which is not among the source files. The spec
  (component 4.1) describes it: the name is wrapped in double quotes, every embedded quote
  character is doubled, and a name that is already wrapped in quotes is returned as it
  is, so that quoting twice is quoting once.
\<close>

definition quote_ident :: "string \<Rightarrow> string" where
  "quote_ident column =
     (if 2 \<le> length column \<and> hd column = dq \<and> last column = dq
      then column
      else [dq] @ str_replace [dq] [dq, dq] column @ [dq])"

section \<open>Data model\<close>

text \<open>
  A transformation step is the triple \<open>(func, ctype, category)\<close> that \<open>vDCMATH.apply\<close>
  appends to \<open>self.transformations\<close>.
\<close>

type_synonym transformation = "string \<times> string \<times> string"

text \<open>
  A vColumn object: its list of transformations and its \<open>catalog\<close> attribute. The
  catalog is a mutable dict that \<open>vDCMATH.apply\<close> shares between two columns
  (\<open>self.parent[copy_name].catalog = self.catalog\<close>), so the attribute holds the address
  of the dict and the dicts live in a store owned by the frame. The alias of the column
  (\<open>self.alias\<close>) is the key under which the parent holds it.
\<close>

record vColumn =
  transformations :: "transformation list"
  catalog :: nat

text \<open>
  The parent vDataFrame: \<open>_VERTICAPY_VARIABLES_["columns"]\<close>,
  \<open>_VERTICAPY_VARIABLES_["exclude_columns"]\<close>, the history log, the vColumn attributes
  by alias, the store of catalog dicts and the next unused address of that store.
\<close>

record vDataFrame =
  columns :: "string list"
  exclude_columns :: "string list"
  history :: "string list"
  vcolumns :: "string \<rightharpoonup> vColumn"
  catalogs :: "nat \<Rightarrow> (string \<rightharpoonup> string)"
  next_catalog :: nat

text \<open>The exceptions of the module, each with its message (\<open>str(e)\<close>).\<close>

datatype error =
    QueryError string
  | MissingColumn string
  | ParameterError string
  | NameError string
  | IndexError string
  | AssertionError string
  | DatabaseError string

fun message :: "error \<Rightarrow> string" where
  "message (QueryError m) = m"
| "message (MissingColumn m) = m"
| "message (ParameterError m) = m"
| "message (NameError m) = m"
| "message (IndexError m) = m"
| "message (AssertionError m) = m"
| "message (DatabaseError m) = m"

text \<open>
  A method that mutates the frame and may raise returns either the frame after the call,
  or the exception together with the frame as the exception left it.
\<close>

type_synonym outcome = "(error \<times> vDataFrame) + vDataFrame"

section \<open>Collaborators that are not among the source files\<close>

text \<open>
  The \<open>order_by\<close> argument of \<open>vDFMATH.analytic\<close>: a list of columns, or a dict from
  columns to sorting methods.
\<close>

datatype order_by = OrderList "string list" | OrderDict "(string \<times> string) list"

text \<open>
  The methods below call functions that are defined elsewhere in the package and whose
  results depend on the database or on text formatting that the module does not show. They
  are taken as parameters:
  \<^item> \<open>get_data_types(expr, column)\<close>, the database round trip; it raises when the probe
    query fails (\<open>Inl\<close> with the database's message);
  \<^item> \<open>to_category\<close>, the type classifier;
  \<^item> \<open>vDataFrame.__genSQL__\<close>, the query compiler;
  \<^item> \<open>vDataFrame.format_colnames(columns, by)\<close>, which raises on a name that is not a column;
  \<^item> \<open>vDataFrame.__get_sort_syntax__\<close>;
  \<^item> \<open>verticapy_agg_name(func, method="vertica")\<close>;
  \<^item> \<open>vDataFrame.eval(name, expr)\<close>;
  \<^item> \<open>float(s) / 100\<close> as an f-string prints it, \<open>None\<close> when \<open>float\<close> raises.
\<close>

record env =
  get_data_types :: "string \<Rightarrow> string \<Rightarrow> string + string"
  to_category :: "string \<Rightarrow> string"
  genSQL :: "vDataFrame \<Rightarrow> string"
  format_colnames ::
    "vDataFrame \<Rightarrow> string list \<Rightarrow> string list \<Rightarrow> error + (string list \<times> string list)"
  get_sort_syntax :: "order_by \<Rightarrow> string"
  verticapy_agg_name :: "string \<Rightarrow> string"
  vDataFrame_eval :: "vDataFrame \<Rightarrow> string \<Rightarrow> string \<Rightarrow> outcome"
  percent_of :: "string \<Rightarrow> string option"

text \<open>
  Modelled from the spec: \<open>vDataFrame.get_columns\<close> is not among the source files. The
  spec (component 4.4, \<open>activeColumns\<close>) describes it: the aliases in insertion order,
  without those of the exclude set.
\<close>

definition get_columns :: "vDataFrame \<Rightarrow> string list" where
  "get_columns vdf = filter (\<lambda>c. c \<notin> set (exclude_columns vdf)) (columns vdf)"

text \<open>
  Modelled from the spec: \<open>vDataFrame.__getitem__\<close> is not among the source files. The
  spec (data model, Identifier) has columns stored and compared in canonical quoted form;
  a name that is not a column raises \<open>MissingColumn\<close>.
\<close>

definition getitem :: "vDataFrame \<Rightarrow> string \<Rightarrow> error + vColumn" where
  "getitem vdf name =
     (case vcolumns vdf (quote_ident name) of
        None \<Rightarrow> Inl (MissingColumn name)
      | Some c \<Rightarrow> Inr c)"

text \<open>
  Modelled from the spec: \<open>vColumn.ctype\<close> and \<open>vColumn.category\<close> are not among the
  source files. The spec has the identity steps carry the current type and category of
  the column, which are those of the last step of its chain; a chain is never empty, and
  reading the last step of an empty list raises \<open>IndexError\<close> in Python.
\<close>

definition ctype :: "vColumn \<Rightarrow> error + string" where
  "ctype c =
     (case transformations c of
        [] \<Rightarrow> Inl (IndexError ''list index out of range'')
      | t # ts \<Rightarrow> Inr (fst (snd (last (t # ts)))))"

definition category :: "vColumn \<Rightarrow> error + string" where
  "category c =
     (case transformations c of
        [] \<Rightarrow> Inl (IndexError ''list index out of range'')
      | t # ts \<Rightarrow> Inr (snd (snd (last (t # ts)))))"

text \<open>
  Modelled from the spec: \<open>vColumn.add_copy\<close> is not among the source files. The spec
  (component 4.3, \<open>copy\<close>) has a copied entry hold a value copy of the chain and a copy of
  the cache mapping; the frame (data model) keeps aliases unique and in insertion order,
  so a name that is already a column is refused before anything is changed.
\<close>

definition add_copy :: "vDataFrame \<Rightarrow> vColumn \<Rightarrow> string \<Rightarrow> outcome" where
  "add_copy vdf self name =
     (let new_name = quote_ident name in
      if new_name \<in> set (columns vdf) then
        Inl (NameError (''A vColumn has already the alias '' @ new_name), vdf)
      else if vcolumns vdf new_name \<noteq> None then
        Inl (NameError (''A vColumn has already the alias '' @ new_name), vdf)
      else Inr (vdf\<lparr>
        columns := columns vdf @ [new_name],
        vcolumns := (vcolumns vdf)(new_name \<mapsto>
          \<lparr>transformations = transformations self, catalog = next_catalog vdf\<rparr>),
        catalogs := (catalogs vdf)(next_catalog vdf := catalogs vdf (catalog self)),
        next_catalog := Suc (next_catalog vdf)\<rparr>))"

text \<open>
  Modelled from the spec: \<open>vDataFrame.__update_catalog__\<close> is not among the source files.
  The spec (component 4.3, \<open>apply\<close>) has the call with \<open>erase=True\<close> clear all cached
  statistics of the entries named: each gets a new, empty catalog.
\<close>

fun update_catalog_erase :: "vDataFrame \<Rightarrow> string list \<Rightarrow> vDataFrame" where
  "update_catalog_erase vdf [] = vdf"
| "update_catalog_erase vdf (column # cols) =
     update_catalog_erase
       (case vcolumns vdf column of
          None \<Rightarrow> vdf
        | Some c \<Rightarrow> vdf\<lparr>
            vcolumns := (vcolumns vdf)(column \<mapsto> c\<lparr>catalog := next_catalog vdf\<rparr>),
            catalogs := (catalogs vdf)(next_catalog vdf := Map.empty),
            next_catalog := Suc (next_catalog vdf)\<rparr>)
       cols"

text \<open>
  Modelled from the spec: \<open>vDataFrame.__add_to_history__\<close> is not among the source files.
  The spec (data model, Frame) has the history log an append-only sequence of strings.
\<close>

definition add_to_history :: "vDataFrame \<Rightarrow> string \<Rightarrow> vDataFrame" where
  "add_to_history vdf msg = vdf\<lparr>history := history vdf @ [msg]\<rparr>"

text \<open>
  Modelled from the spec: reading and storing a cached statistic of a column
  (component 4.3, \<open>cachedStat\<close> and \<open>setCachedStat\<close>) go through the column's catalog
  dict; storing overwrites in place.
\<close>

definition cachedStat :: "vDataFrame \<Rightarrow> string \<Rightarrow> string \<Rightarrow> string option" where
  "cachedStat vdf column name =
     (case vcolumns vdf column of
        None \<Rightarrow> None
      | Some c \<Rightarrow> catalogs vdf (catalog c) name)"

definition setCachedStat :: "vDataFrame \<Rightarrow> string \<Rightarrow> string \<Rightarrow> string \<Rightarrow> vDataFrame" where
  "setCachedStat vdf column name v =
     (case vcolumns vdf column of
        None \<Rightarrow> vdf
      | Some c \<Rightarrow> vdf\<lparr>catalogs :=
          (catalogs vdf)(catalog c := (catalogs vdf (catalog c))(name \<mapsto> v))\<rparr>)"

section \<open>vDCMATH.apply\<close>

text \<open>
  The dependency test of the loop over \<open>all_cols\<close>:
  \<open>(quote_ident(column) in func) or (re.search(re.compile(...), func))\<close>.
  The module does not import \<open>re\<close> (its imports are \<open>typing\<close>, \<open>random\<close> and names of
  \<open>verticapy\<close>), so when the first disjunct is false, evaluating the second raises
  \<open>NameError\<close>; when it is true, \<open>or\<close> does not evaluate the second.
\<close>

definition references :: "string \<Rightarrow> string \<Rightarrow> error + bool" where
  "references column func =
     (if str_in (quote_ident column) func then Inr True
      else Inl (NameError ''name re is not defined''))"

text \<open>
  The loop \<open>for column in all_cols\<close>. Its body stands in \<open>try: ... except: pass\<close>, so an
  exception of the test, or of \<open>self.parent[column]\<close>, leaves \<open>max_floor\<close> as it is.
\<close>

fun max_floor_loop :: "vDataFrame \<Rightarrow> string \<Rightarrow> string list \<Rightarrow> int \<Rightarrow> int" where
  "max_floor_loop vdf func [] max_floor = max_floor"
| "max_floor_loop vdf func (column # all_cols) max_floor =
     max_floor_loop vdf func all_cols
       (case references column func of
          Inl e \<Rightarrow> max_floor
        | Inr b \<Rightarrow>
            if b then
              (case getitem vdf column of
                 Inl e \<Rightarrow> max_floor
               | Inr c \<Rightarrow> max (int (length (transformations c))) max_floor)
            else max_floor)"

text \<open>
  Statements of the \<open>try\<close> block run one after the other; the first that raises ends
  the block with the frame as it then is.
\<close>

definition then_do :: "outcome \<Rightarrow> (vDataFrame \<Rightarrow> outcome) \<Rightarrow> outcome" where
  "then_do r f = (case r of Inl err \<Rightarrow> Inl err | Inr vdf \<Rightarrow> f vdf)"

text \<open>
  \<open>target.transformations += [t]\<close>, where \<open>target\<close> is the column held under the alias
  \<open>column\<close>.
\<close>

definition append_transformation :: "vDataFrame \<Rightarrow> string \<Rightarrow> transformation \<Rightarrow> outcome" where
  "append_transformation vdf column t =
     (case vcolumns vdf column of
        None \<Rightarrow> Inl (MissingColumn column, vdf)
      | Some c \<Rightarrow> Inr (vdf\<lparr>vcolumns :=
          (vcolumns vdf)(column \<mapsto> c\<lparr>transformations := transformations c @ [t]\<rparr>)\<rparr>))"

text \<open>
  One round of \<open>for k in range(max_floor): target.transformations += [("{}",
  self.ctype(), self.category())]\<close>: the target is looked up first, then the right-hand
  side is evaluated, then the list is extended.
\<close>

definition pad_step :: "vDataFrame \<Rightarrow> string \<Rightarrow> string \<Rightarrow> outcome" where
  "pad_step vdf target self =
     (case vcolumns vdf target of
        None \<Rightarrow> Inl (MissingColumn target, vdf)
      | Some tc \<Rightarrow>
     (case vcolumns vdf self of
        None \<Rightarrow> Inl (MissingColumn self, vdf)
      | Some sc \<Rightarrow>
     (case ctype sc of
        Inl e \<Rightarrow> Inl (e, vdf)
      | Inr ct \<Rightarrow>
     (case category sc of
        Inl e \<Rightarrow> Inl (e, vdf)
      | Inr cat \<Rightarrow> append_transformation vdf target (''{}'', ct, cat)))))"

fun pad_loop :: "nat \<Rightarrow> vDataFrame \<Rightarrow> string \<Rightarrow> string \<Rightarrow> outcome" where
  "pad_loop 0 vdf target self = Inr vdf"
| "pad_loop (Suc k) vdf target self =
     then_do (pad_step vdf target self) (\<lambda>vdf'. pad_loop k vdf' target self)"

text \<open>\<open>self.parent[copy_name].catalog = self.catalog\<close>: the two columns hold one dict.\<close>

definition share_catalog :: "vDataFrame \<Rightarrow> string \<Rightarrow> string \<Rightarrow> outcome" where
  "share_catalog vdf target self =
     (case vcolumns vdf target of
        None \<Rightarrow> Inl (MissingColumn target, vdf)
      | Some tc \<Rightarrow>
     (case vcolumns vdf self of
        None \<Rightarrow> Inl (MissingColumn self, vdf)
      | Some sc \<Rightarrow>
          Inr (vdf\<lparr>vcolumns := (vcolumns vdf)(target \<mapsto> tc\<lparr>catalog := catalog sc\<rparr>)\<rparr>)))"

text \<open>The probe query whose column type \<open>get_data_types\<close> is asked for.\<close>

definition apply_probe :: "env \<Rightarrow> vDataFrame \<Rightarrow> string \<Rightarrow> string \<Rightarrow> string" where
  "apply_probe env vdf self func_apply =
     [nl] @ ''                    SELECT '' @
     [nl] @ ''                        '' @ func_apply @ '' AS apply_test_feature '' @
     [nl] @ ''                    FROM '' @ genSQL env vdf @ '' '' @
     [nl] @ ''                    WHERE '' @ self @ '' IS NOT NULL '' @
     [nl] @ ''                    LIMIT 0''"

text \<open>The entry that \<open>vDCMATH.apply\<close> writes to the history log.\<close>

definition apply_history_entry :: "string \<Rightarrow> string \<Rightarrow> string" where
  "apply_history_entry self func =
     ''[Apply]: The vColumn '' @ [sq] @ str_replace [dq] [] self @ [sq] @ '' was '' @
     ''transformed with the func '' @ [sq] @ ''x -> '' @ str_replace ''{}'' self func @
     [sq] @ ''.''"

text \<open>
  The two branches of \<open>if copy_name:\<close>, with \<open>max_floor\<close> already reduced by
  \<open>len(self.transformations)\<close>; \<open>range\<close> of a negative number is empty. The copy is held
  under the quoted \<open>copy_name\<close>, which is where \<open>self.parent[copy_name]\<close> finds it.
\<close>

definition apply_copy ::
  "vDataFrame \<Rightarrow> string \<Rightarrow> vColumn \<Rightarrow> string \<Rightarrow> transformation \<Rightarrow> int \<Rightarrow> outcome" where
  "apply_copy vdf self sc copy_name step max_floor =
     then_do (add_copy vdf sc copy_name) (\<lambda>vdf1.
     then_do (pad_loop (nat max_floor) vdf1 (quote_ident copy_name) self) (\<lambda>vdf2.
     then_do (append_transformation vdf2 (quote_ident copy_name) step) (\<lambda>vdf3.
     share_catalog vdf3 (quote_ident copy_name) self)))"

definition apply_inplace ::
  "vDataFrame \<Rightarrow> string \<Rightarrow> transformation \<Rightarrow> int \<Rightarrow> outcome" where
  "apply_inplace vdf self step max_floor =
     then_do (pad_loop (nat max_floor) vdf self self) (\<lambda>vdf2.
     then_do (append_transformation vdf2 self step) (\<lambda>vdf3.
     Inr (update_catalog_erase vdf3 [self])))"

text \<open>
  The body of the \<open>try\<close> block of \<open>vDCMATH.apply\<close>, for the column \<open>sc\<close> that \<open>vdf\<close>
  holds under the alias \<open>self\<close> (\<open>self.alias\<close> is \<open>self\<close>, \<open>self.parent\<close> is \<open>vdf\<close>).
\<close>

definition apply_try ::
  "env \<Rightarrow> vDataFrame \<Rightarrow> string \<Rightarrow> vColumn \<Rightarrow> string \<Rightarrow> string \<Rightarrow> outcome" where
  "apply_try env vdf self sc func copy_name =
     (case get_data_types env
             (apply_probe env vdf self (str_replace ''{}'' self func))
             ''apply_test_feature'' of
        Inl m \<Rightarrow> Inl (DatabaseError m, vdf)
      | Inr ctype' \<Rightarrow>
     (let category' = to_category env ctype';
          all_cols = get_columns vdf;
          max_floor = max_floor_loop vdf func all_cols 0;
          max_floor = max_floor - int (length (transformations sc))
      in then_do
           (if copy_name \<noteq> []
            then apply_copy vdf self sc copy_name (func, ctype', category') max_floor
            else apply_inplace vdf self (func, ctype', category') max_floor)
           (\<lambda>vdf4. Inr (add_to_history vdf4 (apply_history_entry self func)))))"

text \<open>
  \<open>vdf[self].apply(func, copy_name)\<close>: every exception of the \<open>try\<close> block is raised again
  as a \<open>QueryError\<close> that carries the message of the first.
\<close>

definition vDCMATH_apply :: "env \<Rightarrow> vDataFrame \<Rightarrow> string \<Rightarrow> string \<Rightarrow> string \<Rightarrow> outcome" where
  "vDCMATH_apply env vdf self func copy_name =
     (case vcolumns vdf self of
        None \<Rightarrow> Inl (MissingColumn self, vdf)
      | Some sc \<Rightarrow>
     (case apply_try env vdf self sc func copy_name of
        Inl (e, vdf') \<Rightarrow>
          Inl (QueryError
                 (message e @ [nl] @ ''Error when applying the func '' @ [sq] @ ''x -> '' @
                  str_replace ''{}'' self func @ [sq] @ '' '' @
                  ''to '' @ [sq] @ str_replace [dq] [] self @ [sq]), vdf')
      | Inr vdf' \<Rightarrow> Inr vdf'))"

section \<open>vDCMATH.apply_fun and vDCMATH.get_len\<close>

text \<open>
  The argument \<open>x\<close> of \<open>apply_fun\<close> is a string or a number; of a number the model keeps
  the text that an f-string prints for it.
\<close>

datatype arg = IsStr string | IsNumber string

fun format_arg :: "arg \<Rightarrow> string" where
  "format_arg (IsStr s) = s"
| "format_arg (IsNumber r) = r"

text \<open>
  The expression that \<open>apply_fun\<close> builds from \<open>func\<close>, the category \<open>cat\<close> of the
  column and \<open>x\<close>, and hands to \<open>self.apply\<close>.
\<close>

definition apply_fun_expr :: "string \<Rightarrow> string \<Rightarrow> arg \<Rightarrow> string" where
  "apply_fun_expr func0 cat x =
     (let func = (if func0 = ''mean'' then ''avg''
                  else if func0 = ''length'' then ''len''
                  else func0);
          func =
            (if func = ''len'' then
               (if cat = ''vmap'' then ''MAPSIZE''
                else if cat = ''complex'' then ''APPLY_COUNT_ELEMENTS''
                else ''LENTGH'')
             else if func \<in> set [''max'', ''min'', ''sum'', ''avg'', ''count''] then
               ''APPLY_'' @ func
             else if func = ''dim'' then ''ARRAY_DIMS''
             else func)
      in if func \<notin> set [''log'', ''mod'', ''pow'', ''round'', ''contain'', ''find''] then
           upper func @ ''({})''
         else if func \<in> set [''log'', ''mod'', ''pow'', ''round''] then
           upper func @ ''({}, '' @ format_arg x @ '')''
         else
           (let f = (if func = ''contain'' then
                       (if cat = ''vmap'' then ''MAPCONTAINSVALUE'' else ''CONTAINS'')
                     else ''ARRAY_FIND'');
                x' = (case x of
                        IsStr s \<Rightarrow> [sq] @ str_replace [sq] [sq, sq] s @ [sq]
                      | IsNumber r \<Rightarrow> r)
            in f @ ''({}, '' @ x' @ '')''))"

text \<open>
  \<open>vdf[self].apply_fun(func, x)\<close>. \<open>self.category()\<close> is read outside any \<open>try\<close>.
\<close>

definition vDCMATH_apply_fun :: "env \<Rightarrow> vDataFrame \<Rightarrow> string \<Rightarrow> string \<Rightarrow> arg \<Rightarrow> outcome" where
  "vDCMATH_apply_fun env vdf self func x =
     (case vcolumns vdf self of
        None \<Rightarrow> Inl (MissingColumn self, vdf)
      | Some sc \<Rightarrow>
     (case category sc of
        Inl e \<Rightarrow> Inl (e, vdf)
      | Inr cat \<Rightarrow> vDCMATH_apply env vdf self (apply_fun_expr func cat x) []))"

text \<open>
  \<open>vDCMATH.get_len\<close> picks the SQL function by category, builds the query of the new
  relation and hands it to \<open>vDataFrameSQL\<close> (external); the model returns the query, the
  alias of the new column and its \<open>init_transf\<close>.
\<close>

definition get_len_fun :: "string \<Rightarrow> string" where
  "get_len_fun cat =
     (if cat = ''vmap'' then ''MAPSIZE''
      else if cat = ''complex'' then ''APPLY_COUNT_ELEMENTS''
      else ''LENGTH'')"

definition vDCMATH_get_len ::
  "env \<Rightarrow> vDataFrame \<Rightarrow> string \<Rightarrow> string \<Rightarrow> error + (string \<times> string \<times> string)" where
  "vDCMATH_get_len env vdf self self_init_transf =
     (case vcolumns vdf self of
        None \<Rightarrow> Inl (MissingColumn self)
      | Some sc \<Rightarrow>
     (case category sc of
        Inl e \<Rightarrow> Inl e
      | Inr cat \<Rightarrow>
     (let fun' = get_len_fun cat;
          elem_to_select = fun' @ ''('' @ self @ '')'';
          init_transf = fun' @ ''('' @ self_init_transf @ '')'';
          new_alias = quote_ident (butlast (tl self) @ ''.length'');
          query =
            [nl] @ ''            (SELECT '' @
            [nl] @ ''                '' @ elem_to_select @ '' AS '' @ new_alias @ '' '' @
            [nl] @ ''            FROM '' @ genSQL env vdf @ '') VERTICAPY_SUBTABLE''
      in Inr (query, new_alias, init_transf))))"

section \<open>vDFMATH.analytic\<close>

text \<open>The SQL expressions of the branches, as the f-strings build them.\<close>

definition kurtosis_expr :: "string \<Rightarrow> string \<Rightarrow> string \<Rightarrow> string \<Rightarrow> string \<Rightarrow> string" where
  "kurtosis_expr c0 mean_name std_name count_name by =
     ''AVG(POWER(('' @ c0 @ '' - '' @ mean_name @ '') '' @
     [nl] @ ''                          / NULLIFZERO('' @ std_name @ ''), 4)) OVER ('' @ by @ '') '' @
     [nl] @ ''                          * POWER('' @ count_name @ '', 2) '' @
     [nl] @ ''                          * ('' @ count_name @ '' + 1) '' @
     [nl] @ ''                          / NULLIFZERO(('' @ count_name @ '' - 1) '' @
     [nl] @ ''                          * ('' @ count_name @ '' - 2) '' @
     [nl] @ ''                          * ('' @ count_name @ '' - 3)) '' @
     [nl] @ ''                          - 3 * POWER('' @ count_name @ '' - 1, 2) '' @
     [nl] @ ''                          / NULLIFZERO(('' @ count_name @ '' - 2) '' @
     [nl] @ ''                          * ('' @ count_name @ '' - 3))''"

definition skewness_expr :: "string \<Rightarrow> string \<Rightarrow> string \<Rightarrow> string \<Rightarrow> string \<Rightarrow> string" where
  "skewness_expr c0 mean_name std_name count_name by =
     ''AVG(POWER(('' @ c0 @ '' - '' @ mean_name @ '') '' @
     [nl] @ ''                         / NULLIFZERO('' @ std_name @ ''), 3)) OVER ('' @ by @ '') '' @
     [nl] @ ''                         * POWER('' @ count_name @ '', 2) '' @
     [nl] @ ''                         / NULLIFZERO(('' @ count_name @ '' - 1) '' @
     [nl] @ ''                         * ('' @ count_name @ '' - 2))''"

definition jb_expr :: "string \<Rightarrow> string \<Rightarrow> string \<Rightarrow> string \<Rightarrow> string \<Rightarrow> string" where
  "jb_expr c0 mean_name std_name count_name by =
     count_name @ '' / 6 * (POWER(AVG(POWER(('' @ c0 @ '' '' @
     [nl] @ ''                          - '' @ mean_name @ '') / NULLIFZERO('' @ std_name @ ''), 3)) OVER ('' @ by @ '') '' @
     [nl] @ ''                          * POWER('' @ count_name @ '', 2) / NULLIFZERO(('' @ count_name @ '' - 1) '' @
     [nl] @ ''                          * ('' @ count_name @ '' - 2)), 2) + POWER(AVG(POWER(('' @ c0 @ '' '' @
     [nl] @ ''                          - '' @ mean_name @ '') / NULLIFZERO('' @ std_name @ ''), 4)) OVER ('' @ by @ '') '' @
     [nl] @ ''                          * POWER('' @ count_name @ '', 2) * ('' @ count_name @ '' + 1) '' @
     [nl] @ ''                          / NULLIFZERO(('' @ count_name @ '' - 1) * ('' @ count_name @ '' - 2) '' @
     [nl] @ ''                          * ('' @ count_name @ '' - 3)) - 3 * POWER('' @ count_name @ '' - 1, 2) '' @
     [nl] @ ''                          / NULLIFZERO(('' @ count_name @ '' - 2) * ('' @ count_name @ '' - 3)), 2) / 4)''"

definition unique_expr :: "string \<Rightarrow> string \<Rightarrow> string" where
  "unique_expr c0 by =
     ''DENSE_RANK() OVER ('' @ by @ '' ORDER BY '' @ c0 @ '' ASC) '' @
     [nl] @ ''                      + DENSE_RANK() OVER ('' @ by @ '' ORDER BY '' @ c0 @ '' DESC) - 1''"

definition iqr_expr :: "string \<Rightarrow> string \<Rightarrow> string" where
  "iqr_expr c0 by =
     ''PERCENTILE_CONT(0.75) WITHIN GROUP(ORDER BY '' @ c0 @ '') OVER ('' @ by @ '') '' @
     [nl] @ ''                      - PERCENTILE_CONT(0.25) WITHIN GROUP(ORDER BY '' @ c0 @ '') OVER ('' @ by @ '')''"

definition prod_expr :: "string \<Rightarrow> string \<Rightarrow> string" where
  "prod_expr c0 by =
     ''DECODE(ABS(MOD(SUM(CASE '' @
     [nl] @ ''                                            WHEN '' @ c0 @ '' < 0 '' @
     [nl] @ ''                                            THEN 1 ELSE 0 END) '' @
     [nl] @ ''                                       OVER ('' @ by @ ''), 2)), 0, 1, -1) '' @
     [nl] @ ''                     * POWER(10, SUM(LOG(ABS('' @ c0 @ ''))) '' @
     [nl] @ ''                                 OVER ('' @ by @ ''))''"

definition corr_expr :: "string \<Rightarrow> string \<Rightarrow> string \<Rightarrow> string \<Rightarrow> string" where
  "corr_expr c0 c1 by den =
     [nl] @ ''                    (AVG('' @ c0 @ '' * '' @ c1 @ '') OVER ('' @ by @ '') '' @
     [nl] @ ''                   - AVG('' @ c0 @ '') OVER ('' @ by @ '') '' @
     [nl] @ ''                   * AVG('' @ c1 @ '') OVER ('' @ by @ ''))'' @ den"

text \<open>
  The names of the helper columns: \<open>f"{column_str}_mean_{random_nb}"\<close> and its siblings,
  where \<open>column_str\<close> is \<open>columns[0]\<close> without its quotes and \<open>random_nb\<close> is the text of
  the number that \<open>random.randint(0, 10000000)\<close> drew.
\<close>

definition helper_name :: "string \<Rightarrow> string \<Rightarrow> string \<Rightarrow> string" where
  "helper_name c0 kind random_nb =
     str_replace [dq] [] c0 @ ''_'' @ kind @ ''_'' @ random_nb"

text \<open>
  The branch \<open>if func in ("skewness", "kurtosis", "aad", "mad", "jb")\<close>: the helper
  columns are evaluated first, then the column \<open>name\<close>.
\<close>

definition analytic_moments ::
  "env \<Rightarrow> vDataFrame \<Rightarrow> string \<Rightarrow> string \<Rightarrow> string \<Rightarrow> string \<Rightarrow> string \<Rightarrow> outcome" where
  "analytic_moments env vdf func c0 by name random_nb =
     (let mean_name = helper_name c0 ''mean'' random_nb;
          median_name = helper_name c0 ''median'' random_nb;
          std_name = helper_name c0 ''std'' random_nb;
          count_name = helper_name c0 ''count'' random_nb
      in
      then_do
        (if func = ''mad''
         then vDataFrame_eval env vdf median_name (''MEDIAN('' @ c0 @ '') OVER ('' @ by @ '')'')
         else vDataFrame_eval env vdf mean_name (''AVG('' @ c0 @ '') OVER ('' @ by @ '')''))
      (\<lambda>vdf1.
      then_do
        (if func \<notin> set [''aad'', ''mad''] then
           then_do
             (vDataFrame_eval env vdf1 std_name (''STDDEV('' @ c0 @ '') OVER ('' @ by @ '')''))
             (\<lambda>vdf'. vDataFrame_eval env vdf' count_name
                      (''COUNT('' @ c0 @ '') OVER ('' @ by @ '')''))
         else Inr vdf1)
      (\<lambda>vdf2.
        if func = ''kurtosis'' then
          vDataFrame_eval env vdf2 name (kurtosis_expr c0 mean_name std_name count_name by)
        else if func = ''skewness'' then
          vDataFrame_eval env vdf2 name (skewness_expr c0 mean_name std_name count_name by)
        else if func = ''jb'' then
          vDataFrame_eval env vdf2 name (jb_expr c0 mean_name std_name count_name by)
        else if func = ''aad'' then
          vDataFrame_eval env vdf2 name
            (''AVG(ABS('' @ c0 @ '' - '' @ mean_name @ '')) OVER ('' @ by @ '')'')
        else if func = ''mad'' then
          vDataFrame_eval env vdf2 name
            (''AVG(ABS('' @ c0 @ '' - '' @ median_name @ '')) OVER ('' @ by @ '')'')
        else Inr vdf2)))"

text \<open>The branch \<open>elif func == "top"\<close>.\<close>

definition analytic_top ::
  "env \<Rightarrow> vDataFrame \<Rightarrow> string \<Rightarrow> string \<Rightarrow> string \<Rightarrow> bool \<Rightarrow> outcome" where
  "analytic_top env vdf c0 by name add_count =
     (let by_str = (if by = [] then ''PARTITION BY '' @ c0 else by @ '', '' @ c0) in
      then_do (vDataFrame_eval env vdf name (''ROW_NUMBER() OVER ('' @ by_str @ '')''))
      (\<lambda>vdf1.
      then_do
        (if add_count then
           vDataFrame_eval env vdf1 (str_replace [dq] [] name @ ''_count'')
             (''NTH_VALUE('' @ name @ '', 1) OVER ('' @ by @ '' ORDER BY '' @ name @ '' DESC)'')
         else Inr vdf1)
      (\<lambda>vdf2.
        case getitem vdf2 name of
          Inl e \<Rightarrow> Inl (e, vdf2)
        | Inr c \<Rightarrow>
            vDCMATH_apply env vdf2 (quote_ident name)
              (''NTH_VALUE('' @ c0 @ '', 1) OVER ('' @ by @ '' ORDER BY {} DESC)'') [])))"

text \<open>
  The first family of functions (\<open>max\<close>, \<open>min\<close>, ..., \<open>sem\<close>, or a name that contains
  \<open>%\<close>). The module defines neither \<open>OPTIONS\<close> nor \<open>FunctionError\<close>, so reading either
  raises \<open>NameError\<close>. \<open>by\<close> is the partition clause and \<open>order_by\<close> the sort syntax.
\<close>

definition analytic_aggregates ::
  "env \<Rightarrow> vDataFrame \<Rightarrow> string \<Rightarrow> string list \<Rightarrow> string \<Rightarrow> string \<Rightarrow> string \<Rightarrow>
   bool \<Rightarrow> string \<Rightarrow> outcome" where
  "analytic_aggregates env vdf func columns' by order_by name add_count random_nb =
     (if order_by \<noteq> [] then Inl (NameError ''name OPTIONS is not defined'', vdf)
      else
     (case columns' of
        [] \<Rightarrow>
          Inl (MissingColumn
            (''The parameter '' @ [sq] @ ''column'' @ [sq] @
             '' must be a vDataFrame Column when using analytic method '' @
             [sq] @ func @ [sq]), vdf)
      | c0 # cs \<Rightarrow>
          if func \<in> set [''skewness'', ''kurtosis'', ''aad'', ''mad'', ''jb''] then
            analytic_moments env vdf func c0 by name random_nb
          else if func = ''top'' then analytic_top env vdf c0 by name add_count
          else if func = ''unique'' then vDataFrame_eval env vdf name (unique_expr c0 by)
          else if last func = CHR ''%'' then
            (case percent_of env (butlast func) of
               None \<Rightarrow> Inl (NameError ''name FunctionError is not defined'', vdf)
             | Some x \<Rightarrow>
                 vDataFrame_eval env vdf name
                   (''PERCENTILE_CONT('' @ x @ '') WITHIN GROUP(ORDER BY '' @ c0 @
                    '') OVER ('' @ by @ '')''))
          else if func = ''range'' then
            vDataFrame_eval env vdf name
              (''MAX('' @ c0 @ '') OVER ('' @ by @ '') - MIN('' @ c0 @ '') OVER ('' @ by @ '')'')
          else if func = ''iqr'' then vDataFrame_eval env vdf name (iqr_expr c0 by)
          else if func = ''sem'' then
            vDataFrame_eval env vdf name
              (''STDDEV('' @ c0 @ '') OVER ('' @ by @ '') / SQRT(COUNT('' @ c0 @
               '') OVER ('' @ by @ ''))'')
          else if func = ''prod'' then vDataFrame_eval env vdf name (prod_expr c0 by)
          else
            vDataFrame_eval env vdf name
              (upper func @ ''('' @ c0 @ '') OVER ('' @ by @ '')'')))"

text \<open>
  The second family (\<open>lead\<close>, \<open>lag\<close>, ..., \<open>pct_change\<close>). \<open>offset\<close> and \<open>x_smoothing\<close>
  are the texts that the f-strings print for the two numbers.
\<close>

definition analytic_window ::
  "env \<Rightarrow> vDataFrame \<Rightarrow> string \<Rightarrow> string list \<Rightarrow> string \<Rightarrow> string \<Rightarrow> string \<Rightarrow>
   string \<Rightarrow> string \<Rightarrow> outcome" where
  "analytic_window env vdf func columns' by order_by name offset x_smoothing =
     (if columns' = [] \<and>
         func \<in> set [''lead'', ''lag'', ''first_value'', ''last_value'', ''pct_change''] then
        Inl (ParameterError
          (''The parameter '' @ [sq] @ ''columns'' @ [sq] @
           '' must be a vDataFrame column when using analytic method '' @
           [sq] @ func @ [sq]), vdf)
      else if columns' \<noteq> [] \<and>
         func \<notin> set [''lead'', ''lag'', ''first_value'', ''last_value'', ''pct_change'',
                      ''exponential_moving_average''] then
        Inl (ParameterError
          (''The parameter '' @ [sq] @ ''columns'' @ [sq] @
           '' must be empty when using analytic method '' @ [sq] @ func @ [sq]), vdf)
      else
     (let order_by = (if by \<noteq> [] \<and> order_by \<noteq> [] then '' '' @ order_by else order_by);
          info_param =
            (if func \<in> set [''lead'', ''lag''] then '', '' @ offset
             else if func \<in> set [''last_value'', ''first_value''] then '' IGNORE NULLS''
             else if func = ''exponential_moving_average'' then '', '' @ x_smoothing
             else [])
      in
      if func = ''pct_change'' then
        (case columns' of
           [] \<Rightarrow> Inl (IndexError ''list index out of range'', vdf)
         | c0 # cs \<Rightarrow>
             vDataFrame_eval env vdf name
               (c0 @ '' / (LAG('' @ c0 @ '') OVER ('' @ by @ order_by @ ''))''))
      else
        (let columns0 = (case columns' of [] \<Rightarrow> [] | c0 # cs \<Rightarrow> c0) in
         vDataFrame_eval env vdf name
           (upper func @ ''('' @ columns0 @ info_param @ '') OVER ('' @ by @ order_by @
            '')''))))"

text \<open>
  The third family (\<open>corr\<close>, \<open>cov\<close>, \<open>beta\<close>). With twice the same column and a function
  other than \<open>cov\<close> the expression is the number 1, which SQL reads as the text \<open>1\<close>.
\<close>

definition analytic_pairs ::
  "env \<Rightarrow> vDataFrame \<Rightarrow> string \<Rightarrow> string list \<Rightarrow> string \<Rightarrow> string \<Rightarrow> outcome" where
  "analytic_pairs env vdf func columns' by name =
     (case columns' of
        [c0, c1] \<Rightarrow>
          (let expr =
             (if c0 = c1 then
                (if func = ''cov'' then ''VARIANCE('' @ c0 @ '') OVER ('' @ by @ '')''
                 else ''1'')
              else
                (let den =
                   (if func = ''corr'' then
                      '' / (STDDEV('' @ c0 @ '') OVER ('' @ by @ '') * STDDEV('' @ c1 @
                      '') OVER ('' @ by @ ''))''
                    else if func = ''beta'' then
                      '' / (VARIANCE('' @ c1 @ '') OVER ('' @ by @ ''))''
                    else [])
                 in corr_expr c0 c1 by den))
           in vDataFrame_eval env vdf name expr)
      | _ \<Rightarrow>
          Inl (AssertionError
            (''The parameter '' @ [sq] @ ''columns'' @ [sq] @
             '' includes 2 vColumns when using analytic method '' @ [sq] @ func @ [sq]), vdf))"

text \<open>
  The statements after the branches:
  \<open>self._VERTICAPY_VARIABLES_["exclude_columns"] += [...]\<close>. The names of the helper
  columns are local variables that only the branch of the five moment functions binds,
  from \<open>columns[0]\<close>.
\<close>

definition exclude_helpers :: "vDataFrame \<Rightarrow> string \<Rightarrow> string list \<Rightarrow> string \<Rightarrow> outcome" where
  "exclude_helpers vdf func columns' random_nb =
     (if func \<in> set [''kurtosis'', ''skewness'', ''jb'', ''aad'', ''mad''] then
        (case columns' of
           [] \<Rightarrow> Inl (NameError ''local variable referenced before assignment'', vdf)
         | c0 # cs \<Rightarrow>
             if func \<in> set [''kurtosis'', ''skewness'', ''jb''] then
               Inr (vdf\<lparr>exclude_columns := exclude_columns vdf @
                 [quote_ident (helper_name c0 ''mean'' random_nb),
                  quote_ident (helper_name c0 ''std'' random_nb),
                  quote_ident (helper_name c0 ''count'' random_nb)]\<rparr>)
             else if func = ''aad'' then
               Inr (vdf\<lparr>exclude_columns := exclude_columns vdf @
                 [quote_ident (helper_name c0 ''mean'' random_nb)]\<rparr>)
             else
               Inr (vdf\<lparr>exclude_columns := exclude_columns vdf @
                 [quote_ident (helper_name c0 ''median'' random_nb)]\<rparr>))
      else Inr vdf)"

text \<open>
  \<open>vdf.analytic(func, columns, by, order_by, name, offset, x_smoothing, add_count)\<close>, with
  \<open>columns\<close> and \<open>by\<close> already lists. The module does not define \<open>gen_name\<close>, so an empty
  \<open>name\<close> raises \<open>NameError\<close>. In the last \<open>else\<close> the f-string reads \<open>info_param\<close>, which
  is bound in another branch only; the bare \<open>except\<close> catches that and raises
  \<open>FunctionError\<close>, which is not defined either.
\<close>

definition vDFMATH_analytic ::
  "env \<Rightarrow> vDataFrame \<Rightarrow> string \<Rightarrow> string list \<Rightarrow> string list \<Rightarrow> order_by \<Rightarrow> string \<Rightarrow>
   string \<Rightarrow> string \<Rightarrow> bool \<Rightarrow> string \<Rightarrow> outcome" where
  "vDFMATH_analytic env vdf func0 columns0 by0 order_by0 name offset x_smoothing add_count
     random_nb =
     (case format_colnames env vdf columns0 by0 of
        Inl e \<Rightarrow> Inl (e, vdf)
      | Inr (columns', by1) \<Rightarrow>
     (if name = [] then Inl (NameError ''name gen_name is not defined'', vdf)
      else
     (let by = (if by1 \<noteq> [] then ''PARTITION BY '' @ str_join '', '' by1 else []);
          order_by = get_sort_syntax env order_by0;
          func = verticapy_agg_name env (lower (lower func0))
      in
      then_do
        (if func \<in> set [''max'', ''min'', ''avg'', ''sum'', ''count'', ''stddev'', ''median'',
                         ''variance'', ''unique'', ''top'', ''kurtosis'', ''skewness'', ''mad'',
                         ''aad'', ''range'', ''prod'', ''jb'', ''iqr'', ''sem'']
            \<or> CHR ''%'' \<in> set func then
           analytic_aggregates env vdf func columns' by order_by name add_count random_nb
         else if func \<in> set [''lead'', ''lag'', ''row_number'', ''percent_rank'',
                         ''dense_rank'', ''rank'', ''first_value'', ''last_value'',
                         ''exponential_moving_average'', ''pct_change''] then
           analytic_window env vdf func columns' by order_by name offset x_smoothing
         else if func \<in> set [''corr'', ''cov'', ''beta''] then
           analytic_pairs env vdf func columns' by name
         else Inl (NameError ''name FunctionError is not defined'', vdf))
        (\<lambda>vdf'. exclude_helpers vdf' func columns' random_nb))))"

section \<open>Observations on a frame\<close>

text \<open>
  The chain of a column and its depth \<open>len(transformations)\<close>; the identity step that the
  padding loop appends for a column; the value of \<open>max_floor\<close> after the loop over the
  columns; the frame that a call leaves behind, returned or raised.
\<close>

definition chain :: "vDataFrame \<Rightarrow> string \<Rightarrow> transformation list" where
  "chain vdf column =
     (case vcolumns vdf column of None \<Rightarrow> [] | Some c \<Rightarrow> transformations c)"

definition depth :: "vDataFrame \<Rightarrow> string \<Rightarrow> nat" where
  "depth vdf column = length (chain vdf column)"

definition identity_step :: "vColumn \<Rightarrow> transformation" where
  "identity_step sc =
     (''{}'', fst (snd (last (transformations sc))), snd (snd (last (transformations sc))))"

definition scan :: "vDataFrame \<Rightarrow> string \<Rightarrow> int" where
  "scan vdf func = max_floor_loop vdf func (get_columns vdf) 0"

fun frame_of :: "outcome \<Rightarrow> vDataFrame" where
  "frame_of (Inl (e, vdf)) = vdf"
| "frame_of (Inr vdf) = vdf"

text \<open>
  A sequence of \<open>apply\<close> calls on one frame, each \<open>(self, func, copy_name)\<close>; the caller
  goes on after a call that raised.
\<close>

fun run_calls :: "env \<Rightarrow> (string \<times> string \<times> string) list \<Rightarrow> vDataFrame \<Rightarrow> vDataFrame" where
  "run_calls env [] vdf = vdf"
| "run_calls env ((self, func, copy_name) # calls) vdf =
     run_calls env calls (frame_of (vDCMATH_apply env vdf self func copy_name))"

text \<open>
  The number of placeholder markers of a template, Python's \<open>func.count("{}")\<close>.
\<close>

fun count_placeholders :: "string \<Rightarrow> nat" where
  "count_placeholders (a # b # cs) =
     (if a = CHR ''{'' \<and> b = CHR ''}'' then Suc (count_placeholders cs)
      else count_placeholders (b # cs))"
| "count_placeholders cs = 0"

text \<open>
  The helper columns of the moment functions as the claim names them: mean, standard
  deviation and count for \<open>kurtosis\<close>, \<open>skewness\<close> and \<open>jb\<close>, the mean for \<open>aad\<close>, the
  median for \<open>mad\<close>, each by its quoted name.
\<close>

definition helper_columns :: "string \<Rightarrow> string \<Rightarrow> string \<Rightarrow> string list" where
  "helper_columns func c0 random_nb =
     (if func \<in> set [''kurtosis'', ''skewness'', ''jb''] then
        [quote_ident (helper_name c0 ''mean'' random_nb),
         quote_ident (helper_name c0 ''std'' random_nb),
         quote_ident (helper_name c0 ''count'' random_nb)]
      else if func = ''aad'' then [quote_ident (helper_name c0 ''mean'' random_nb)]
      else if func = ''mad'' then [quote_ident (helper_name c0 ''median'' random_nb)]
      else [])"

text \<open>
  What the spec says of \<open>eval\<close> (component 4.4): a call that returns has the column under
  its quoted name in the frame, and drops no column.
\<close>

definition eval_adds :: "env \<Rightarrow> bool" where
  "eval_adds env =
     (\<forall>vdf name expr vdf'. vDataFrame_eval env vdf name expr = Inr vdf' \<longrightarrow>
        quote_ident name \<in> set (columns vdf') \<and> set (columns vdf) \<subseteq> set (columns vdf'))"

section \<open>A sample frame and sample collaborators\<close>

text \<open>
  Two columns over a table: \<open>"x"\<close>, never transformed, with one cached statistic, and
  \<open>"y"\<close>, transformed twice.
\<close>

definition x_col :: string where
  "x_col = [dq] @ ''x'' @ [dq]"

definition y_col :: string where
  "y_col = [dq] @ ''y'' @ [dq]"

definition z_col :: string where
  "z_col = [dq] @ ''z'' @ [dq]"

text \<open>The templates \<open>{} + "x"\<close> and \<open>{} + "y"\<close>, which name a column in quoted form.\<close>

definition add_x :: string where
  "add_x = ''{} + '' @ x_col"

definition add_y :: string where
  "add_y = ''{} + '' @ y_col"

definition sample_frame :: vDataFrame where
  "sample_frame =
     \<lparr>columns = [x_col, y_col],
      exclude_columns = [],
      history = [],
      vcolumns = [x_col \<mapsto> \<lparr>transformations = [(x_col, ''int'', ''int'')], catalog = 0\<rparr>,
                  y_col \<mapsto> \<lparr>transformations =
                    [(y_col, ''int'', ''int''), (''{} + 1'', ''int'', ''int''),
                     (''{} * 2'', ''int'', ''int'')], catalog = 1\<rparr>],
      catalogs = (\<lambda>a. Map.empty)(0 := [''max'' \<mapsto> ''9'']),
      next_catalog = 2\<rparr>"

text \<open>
  A database that types every expression as \<open>int\<close>, and an \<open>eval\<close> that adds the column
  with a chain of one step unless its name is taken; a database that refuses every probe.
\<close>

definition sample_eval :: "vDataFrame \<Rightarrow> string \<Rightarrow> string \<Rightarrow> outcome" where
  "sample_eval vdf name expr =
     (if quote_ident name \<in> set (columns vdf) then
        Inl (NameError (''A vColumn has already the alias '' @ quote_ident name), vdf)
      else
        Inr (vdf\<lparr>columns := columns vdf @ [quote_ident name],
                 vcolumns := (vcolumns vdf)(quote_ident name \<mapsto>
                   \<lparr>transformations = [(expr, ''float'', ''float'')],
                    catalog = next_catalog vdf\<rparr>),
                 catalogs := (catalogs vdf)(next_catalog vdf := Map.empty),
                 next_catalog := Suc (next_catalog vdf),
                 history := history vdf @ [''[Eval]: '' @ quote_ident name]\<rparr>))"

definition sample_env :: env where
  "sample_env =
     \<lparr>get_data_types = (\<lambda>expr column. Inr ''int''),
      to_category = (\<lambda>t. ''int''),
      genSQL = (\<lambda>vdf. ''public.t''),
      format_colnames = (\<lambda>vdf cols by. Inr (map quote_ident cols, map quote_ident by)),
      get_sort_syntax = (\<lambda>order_by. []),
      verticapy_agg_name = (\<lambda>f. f),
      vDataFrame_eval = sample_eval,
      percent_of = (\<lambda>s. None)\<rparr>"

definition failing_env :: env where
  "failing_env = sample_env\<lparr>get_data_types := (\<lambda>expr column. Inl ''Syntax error'')\<rparr>"

section \<open>Properties\<close>

lemma then_do_Inr: "then_do r f = Inr v \<longleftrightarrow> (\<exists>u. r = Inr u \<and> f u = Inr v)"
  by (cases r) (simp_all add: then_do_def)

lemma then_do_Inl: "then_do r f = Inl e \<longleftrightarrow> r = Inl e \<or> (\<exists>u. r = Inr u \<and> f u = Inl e)"
  by (cases r) (simp_all add: then_do_def)

lemma then_do_simps [simp]:
  "then_do (Inr u) f = f u" "then_do (Inl e) f = Inl e"
  by (simp_all add: then_do_def)

lemma ctype_append [simp]: "ctype (c\<lparr>transformations := ts @ [(f, ct, cat)]\<rparr>) = Inr ct"
  by (cases ts) (simp_all add: ctype_def)

lemma category_append [simp]: "category (c\<lparr>transformations := ts @ [(f, ct, cat)]\<rparr>) = Inr cat"
  by (cases ts) (simp_all add: category_def)

lemma pad_loop_ok:
  assumes "vcolumns vdf target = Some tc" "vcolumns vdf self = Some sc"
    and "ctype sc = Inr ct" "category sc = Inr cat"
  shows "pad_loop k vdf target self =
    Inr (vdf\<lparr>vcolumns := (vcolumns vdf)(target \<mapsto>
      tc\<lparr>transformations := transformations tc @ replicate k (''{}'', ct, cat)\<rparr>)\<rparr>)"
  using assms
proof (induction k arbitrary: vdf tc sc)
  case 0
  then show ?case by (simp add: map_upd_triv)
next
  case (Suc k)
  define tc' where "tc' = tc\<lparr>transformations := transformations tc @ [(''{}'', ct, cat)]\<rparr>"
  define vdf' where "vdf' = vdf\<lparr>vcolumns := (vcolumns vdf)(target \<mapsto> tc')\<rparr>"
  define sc' where "sc' = (if target = self then tc' else sc)"
  have step: "pad_step vdf target self = Inr vdf'"
    using Suc.prems by (simp add: pad_step_def append_transformation_def vdf'_def tc'_def)
  have sc': "vcolumns vdf' self = Some sc'" "ctype sc' = Inr ct" "category sc' = Inr cat"
    using Suc.prems by (auto simp: vdf'_def sc'_def tc'_def)
  have "pad_loop (Suc k) vdf target self = pad_loop k vdf' target self"
    using step by simp
  also have "\<dots> = Inr (vdf'\<lparr>vcolumns := (vcolumns vdf')(target \<mapsto>
      tc'\<lparr>transformations := transformations tc' @ replicate k (''{}'', ct, cat)\<rparr>)\<rparr>)"
    using sc' by (intro Suc.IH) (simp_all add: vdf'_def)
  also have "\<dots> = Inr (vdf\<lparr>vcolumns := (vcolumns vdf)(target \<mapsto>
      tc\<lparr>transformations := transformations tc @ replicate (Suc k) (''{}'', ct, cat)\<rparr>)\<rparr>)"
    by (simp add: vdf'_def tc'_def)
  finally show ?case .
qed

lemma ctype_nonempty: "transformations sc \<noteq> [] \<Longrightarrow> ctype sc = Inr (fst (snd (last (transformations sc))))"
  by (cases "transformations sc") (simp_all add: ctype_def)

lemma category_nonempty: "transformations sc \<noteq> [] \<Longrightarrow> category sc = Inr (snd (snd (last (transformations sc))))"
  by (cases "transformations sc") (simp_all add: category_def)

lemma apply_inplace_ok:
  assumes "vcolumns vdf self = Some sc" "transformations sc \<noteq> []"
  shows "apply_inplace vdf self step m =
    Inr (vdf\<lparr>vcolumns := (vcolumns vdf)(self \<mapsto>
           \<lparr>transformations = transformations sc @ replicate (nat m) (identity_step sc) @ [step],
            catalog = next_catalog vdf\<rparr>),
         catalogs := (catalogs vdf)(next_catalog vdf := Map.empty),
         next_catalog := Suc (next_catalog vdf)\<rparr>)"
proof -
  have "pad_loop (nat m) vdf self self =
    Inr (vdf\<lparr>vcolumns := (vcolumns vdf)(self \<mapsto>
      sc\<lparr>transformations := transformations sc @ replicate (nat m) (identity_step sc)\<rparr>)\<rparr>)"
    unfolding identity_step_def using assms
    by (intro pad_loop_ok[where sc = sc]) (simp_all add: ctype_nonempty category_nonempty)
  then show ?thesis
    by (cases sc) (simp add: apply_inplace_def append_transformation_def)
qed

lemma apply_copy_ok:
  assumes "vcolumns vdf self = Some sc" "transformations sc \<noteq> []"
    and "quote_ident copy_name \<notin> set (columns vdf)" "vcolumns vdf (quote_ident copy_name) = None"
  shows "apply_copy vdf self sc copy_name step m =
    Inr (vdf\<lparr>columns := columns vdf @ [quote_ident copy_name],
         vcolumns := (vcolumns vdf)(quote_ident copy_name \<mapsto>
           \<lparr>transformations = transformations sc @ replicate (nat m) (identity_step sc) @ [step],
            catalog = catalog sc\<rparr>),
         catalogs := (catalogs vdf)(next_catalog vdf := catalogs vdf (catalog sc)),
         next_catalog := Suc (next_catalog vdf)\<rparr>)"
proof -
  define q where "q = quote_ident copy_name"
  define tc where "tc = \<lparr>transformations = transformations sc, catalog = next_catalog vdf\<rparr>"
  define vdf1 where "vdf1 = vdf\<lparr>columns := columns vdf @ [q],
        vcolumns := (vcolumns vdf)(q \<mapsto> tc),
        catalogs := (catalogs vdf)(next_catalog vdf := catalogs vdf (catalog sc)),
        next_catalog := Suc (next_catalog vdf)\<rparr>"
  have ne: "q \<noteq> self" using assms by (auto simp: q_def)
  have a: "add_copy vdf sc copy_name = Inr vdf1"
    using assms by (simp add: add_copy_def Let_def vdf1_def q_def tc_def)
  have "pad_loop (nat m) vdf1 q self =
    Inr (vdf1\<lparr>vcolumns := (vcolumns vdf1)(q \<mapsto>
      tc\<lparr>transformations := transformations tc @ replicate (nat m) (identity_step sc)\<rparr>)\<rparr>)"
    unfolding identity_step_def using assms ne
    by (intro pad_loop_ok[where sc = sc]) (simp_all add: ctype_nonempty category_nonempty vdf1_def)
  then show ?thesis using a ne assms(1)
    by (simp add: apply_copy_def append_transformation_def share_catalog_def q_def[symmetric]
        vdf1_def tc_def)
qed

lemma apply_ok_inplace:
  assumes "vcolumns vdf self = Some sc" "transformations sc \<noteq> []"
    and "get_data_types env (apply_probe env vdf self (str_replace ''{}'' self func))
           ''apply_test_feature'' = Inr ct"
  shows "vDCMATH_apply env vdf self func [] =
    Inr (vdf\<lparr>vcolumns := (vcolumns vdf)(self \<mapsto>
           \<lparr>transformations = transformations sc @
              replicate (nat (scan vdf func - int (length (transformations sc))))
                (identity_step sc) @ [(func, ct, to_category env ct)],
            catalog = next_catalog vdf\<rparr>),
         catalogs := (catalogs vdf)(next_catalog vdf := Map.empty),
         next_catalog := Suc (next_catalog vdf),
         history := history vdf @ [apply_history_entry self func]\<rparr>)"
  using assms
  by (simp add: vDCMATH_apply_def apply_try_def apply_inplace_ok scan_def add_to_history_def)

lemma apply_ok_copy:
  assumes "vcolumns vdf self = Some sc" "transformations sc \<noteq> []"
    and "get_data_types env (apply_probe env vdf self (str_replace ''{}'' self func))
           ''apply_test_feature'' = Inr ct"
    and "copy_name \<noteq> []"
    and "quote_ident copy_name \<notin> set (columns vdf)" "vcolumns vdf (quote_ident copy_name) = None"
  shows "vDCMATH_apply env vdf self func copy_name =
    Inr (vdf\<lparr>columns := columns vdf @ [quote_ident copy_name],
         vcolumns := (vcolumns vdf)(quote_ident copy_name \<mapsto>
           \<lparr>transformations = transformations sc @
              replicate (nat (scan vdf func - int (length (transformations sc))))
                (identity_step sc) @ [(func, ct, to_category env ct)],
            catalog = catalog sc\<rparr>),
         catalogs := (catalogs vdf)(next_catalog vdf := catalogs vdf (catalog sc)),
         next_catalog := Suc (next_catalog vdf),
         history := history vdf @ [apply_history_entry self func]\<rparr>)"
  using assms
  by (simp add: vDCMATH_apply_def apply_try_def apply_copy_ok scan_def add_to_history_def)

lemma apply_fail_probe:
  assumes "vcolumns vdf self = Some sc"
    and "get_data_types env (apply_probe env vdf self (str_replace ''{}'' self func))
           ''apply_test_feature'' = Inl m"
  shows "vDCMATH_apply env vdf self func copy_name =
    Inl (QueryError (m @ [nl] @ ''Error when applying the func '' @ [sq] @ ''x -> '' @
                  str_replace ''{}'' self func @ [sq] @ '' '' @
                  ''to '' @ [sq] @ str_replace [dq] [] self @ [sq]), vdf)"
  using assms by (simp add: vDCMATH_apply_def apply_try_def)

lemma apply_fail_name:
  assumes "vcolumns vdf self = Some sc"
    and "get_data_types env (apply_probe env vdf self (str_replace ''{}'' self func))
           ''apply_test_feature'' = Inr ct"
    and "copy_name \<noteq> []"
    and "quote_ident copy_name \<in> set (columns vdf) \<or> vcolumns vdf (quote_ident copy_name) \<noteq> None"
  shows "\<exists>m. vDCMATH_apply env vdf self func copy_name = Inl (QueryError m, vdf)"
  using assms
  by (auto simp: vDCMATH_apply_def apply_try_def apply_copy_def add_copy_def Let_def)

lemma frame_of_then_do:
  "frame_of (then_do r f) = (case r of Inl (e, v) \<Rightarrow> v | Inr u \<Rightarrow> frame_of (f u))"
  by (cases r) (auto simp: then_do_def)

lemma then_do_rel:
  assumes trans: "\<And>a b c. R a b \<Longrightarrow> R b c \<Longrightarrow> R a c"
    and first: "R vdf (frame_of r)"
    and rest: "\<And>u. r = Inr u \<Longrightarrow> R u (frame_of (f u))"
  shows "R vdf (frame_of (then_do r f))"
proof (cases r)
  case (Inl err)
  then show ?thesis using first by (cases err) simp
next
  case (Inr u)
  then show ?thesis using trans[OF first[unfolded Inr frame_of.simps] rest[OF Inr]] by simp
qed

lemma pad_loop_rel:
  assumes refl: "\<And>a. R a a"
    and trans: "\<And>a b c. R a b \<Longrightarrow> R b c \<Longrightarrow> R a c"
    and step: "\<And>v. R v (frame_of (pad_step v target self))"
  shows "R vdf (frame_of (pad_loop k vdf target self))"
proof (induction k arbitrary: vdf)
  case 0
  show ?case by (simp add: refl)
next
  case (Suc k)
  show ?case
    unfolding pad_loop.simps
    by (rule then_do_rel[where R = R, OF trans step Suc.IH])
qed

text \<open>What the statements of the two branches do to the chains and to the history.\<close>

lemma append_transformation_frame:
  "frame_of (append_transformation vdf column t) =
     (case vcolumns vdf column of
        None \<Rightarrow> vdf
      | Some c \<Rightarrow> vdf\<lparr>vcolumns :=
          (vcolumns vdf)(column \<mapsto> c\<lparr>transformations := transformations c @ [t]\<rparr>)\<rparr>)"
  by (simp add: append_transformation_def split: option.splits)

lemma depth_append_transformation:
  "depth vdf c \<le> depth (frame_of (append_transformation vdf column t)) c"
  by (simp add: append_transformation_frame depth_def chain_def split: option.splits)

lemma history_append_transformation:
  "history (frame_of (append_transformation vdf column t)) = history vdf"
  by (simp add: append_transformation_frame split: option.splits)

lemma pad_step_frame:
  "frame_of (pad_step vdf target self) = vdf \<or>
   (\<exists>t. frame_of (pad_step vdf target self) = frame_of (append_transformation vdf target t))"
  by (auto simp: pad_step_def split: option.splits sum.splits)

lemma depth_pad_step: "depth vdf c \<le> depth (frame_of (pad_step vdf target self)) c"
  using pad_step_frame[of vdf target self] depth_append_transformation[of vdf c target]
  by auto

lemma history_pad_step: "history (frame_of (pad_step vdf target self)) = history vdf"
  using pad_step_frame[of vdf target self] history_append_transformation[of vdf target]
  by auto

lemma depth_add_copy: "depth vdf c \<le> depth (frame_of (add_copy vdf sc name)) c"
  by (simp add: add_copy_def Let_def depth_def chain_def)

lemma history_add_copy: "history (frame_of (add_copy vdf sc name)) = history vdf"
  by (simp add: add_copy_def Let_def)

lemma depth_share_catalog: "depth vdf c \<le> depth (frame_of (share_catalog vdf target self)) c"
  by (simp add: share_catalog_def depth_def chain_def split: option.splits)

lemma history_share_catalog: "history (frame_of (share_catalog vdf target self)) = history vdf"
  by (simp add: share_catalog_def split: option.splits)

lemma depth_update_catalog_erase: "depth (update_catalog_erase vdf cols) c = depth vdf c"
proof (induction cols arbitrary: vdf)
  case Nil
  show ?case by simp
next
  case (Cons a cols)
  show ?case
  proof (cases "vcolumns vdf a")
    case None
    then show ?thesis by (simp add: Cons.IH)
  next
    case (Some col)
    then show ?thesis by (simp add: Cons.IH) (simp add: depth_def chain_def)
  qed
qed

lemma history_update_catalog_erase: "history (update_catalog_erase vdf cols) = history vdf"
proof (induction cols arbitrary: vdf)
  case Nil
  show ?case by simp
next
  case (Cons a cols)
  show ?case by (cases "vcolumns vdf a") (simp_all add: Cons.IH)
qed

lemma apply_copy_rel:
  assumes refl: "\<And>a. R a a"
    and trans: "\<And>a b c. R a b \<Longrightarrow> R b c \<Longrightarrow> R a c"
    and prims:
      "\<And>v sc n. R v (frame_of (add_copy v sc n))"
      "\<And>v t s. R v (frame_of (pad_step v t s))"
      "\<And>v c t. R v (frame_of (append_transformation v c t))"
      "\<And>v t s. R v (frame_of (share_catalog v t s))"
  shows "R vdf (frame_of (apply_copy vdf self sc copy_name step m))"
  unfolding apply_copy_def
  by (intro then_do_rel[where R = R, OF trans] pad_loop_rel[where R = R, OF refl trans] prims)

lemma apply_inplace_rel:
  assumes refl: "\<And>a. R a a"
    and trans: "\<And>a b c. R a b \<Longrightarrow> R b c \<Longrightarrow> R a c"
    and prims:
      "\<And>v t s. R v (frame_of (pad_step v t s))"
      "\<And>v c t. R v (frame_of (append_transformation v c t))"
    and erase: "\<And>v cs. R v (update_catalog_erase v cs)"
  shows "R vdf (frame_of (apply_inplace vdf self step m))"
proof -
  have last: "R ua (frame_of (Inr (update_catalog_erase ua [self])))" for ua
    unfolding frame_of.simps by (rule erase)
  show ?thesis
    unfolding apply_inplace_def
    by (intro then_do_rel[where R = R, OF trans] pad_loop_rel[where R = R, OF refl trans]
        prims last)
qed

lemma apply_try_probe_ok:
  assumes "get_data_types env (apply_probe env vdf self (str_replace ''{}'' self func))
             ''apply_test_feature'' = Inr ct"
  shows "apply_try env vdf self sc func copy_name =
    then_do
      (if copy_name \<noteq> []
       then apply_copy vdf self sc copy_name (func, ct, to_category env ct)
              (scan vdf func - int (length (transformations sc)))
       else apply_inplace vdf self (func, ct, to_category env ct)
              (scan vdf func - int (length (transformations sc))))
      (\<lambda>vdf4. Inr (add_to_history vdf4 (apply_history_entry self func)))"
  using assms by (simp add: apply_try_def scan_def Let_def)

lemma apply_try_probe_fail:
  assumes "get_data_types env (apply_probe env vdf self (str_replace ''{}'' self func))
             ''apply_test_feature'' = Inl m"
  shows "apply_try env vdf self sc func copy_name = Inl (DatabaseError m, vdf)"
  using assms by (simp add: apply_try_def)

lemma frame_of_vDCMATH_apply:
  "frame_of (vDCMATH_apply env vdf self func copy_name) =
     (case vcolumns vdf self of
        None \<Rightarrow> vdf
      | Some sc \<Rightarrow> frame_of (apply_try env vdf self sc func copy_name))"
  by (simp add: vDCMATH_apply_def split: option.splits sum.splits prod.splits)

lemma vDCMATH_apply_Inr:
  "vDCMATH_apply env vdf self func copy_name = Inr vdf' \<longleftrightarrow>
     (\<exists>sc. vcolumns vdf self = Some sc \<and> apply_try env vdf self sc func copy_name = Inr vdf')"
  by (auto simp: vDCMATH_apply_def split: option.splits sum.splits prod.splits)

lemma vDCMATH_apply_Inl:
  "vDCMATH_apply env vdf self func copy_name = Inl (e, vdf') \<Longrightarrow>
     frame_of (vDCMATH_apply env vdf self func copy_name) = vdf'"
  by simp

lemma apply_try_rel:
  assumes refl: "\<And>a. R a a"
    and trans: "\<And>a b c. R a b \<Longrightarrow> R b c \<Longrightarrow> R a c"
    and prims:
      "\<And>v sc n. R v (frame_of (add_copy v sc n))"
      "\<And>v t s. R v (frame_of (pad_step v t s))"
      "\<And>v c t. R v (frame_of (append_transformation v c t))"
      "\<And>v t s. R v (frame_of (share_catalog v t s))"
    and erase: "\<And>v cs. R v (update_catalog_erase v cs)"
    and hist: "\<And>v e. R v (add_to_history v e)"
  shows "R vdf (frame_of (apply_try env vdf self sc func copy_name))"
proof (cases "get_data_types env (apply_probe env vdf self (str_replace ''{}'' self func))
             ''apply_test_feature''")
  case (Inl m)
  then show ?thesis by (simp add: apply_try_probe_fail refl)
next
  case (Inr ct)
  have body: "R vdf (frame_of
      (if copy_name \<noteq> []
       then apply_copy vdf self sc copy_name (func, ct, to_category env ct)
              (scan vdf func - int (length (transformations sc)))
       else apply_inplace vdf self (func, ct, to_category env ct)
              (scan vdf func - int (length (transformations sc)))))"
    using apply_copy_rel[where R = R, OF refl trans prims]
      apply_inplace_rel[where R = R, OF refl trans prims(2,3) erase]
    by simp
  have last: "R u (frame_of (Inr (add_to_history u e)))" for u e
    unfolding frame_of.simps by (rule hist)
  show ?thesis
    unfolding apply_try_probe_ok[OF Inr]
    by (rule then_do_rel[where R = R, OF trans body last])
qed

lemma depth_add_to_history: "depth (add_to_history v e) c = depth v c"
  by (simp add: add_to_history_def depth_def chain_def)

lemma depth_vDCMATH_apply:
  "depth vdf c \<le> depth (frame_of (vDCMATH_apply env vdf self func copy_name)) c"
proof (cases "vcolumns vdf self")
  case None
  then show ?thesis by (simp add: frame_of_vDCMATH_apply)
next
  case (Some sc)
  have "\<forall>c. depth vdf c \<le> depth (frame_of (apply_try env vdf self sc func copy_name)) c"
    by (rule apply_try_rel[where R = "\<lambda>a b. \<forall>c. depth a c \<le> depth b c"])
      (auto simp: depth_add_copy depth_pad_step depth_append_transformation
        depth_share_catalog depth_update_catalog_erase depth_add_to_history
        intro: order_trans)
  then show ?thesis using Some by (simp add: frame_of_vDCMATH_apply)
qed

lemma depth_run_calls: "depth vdf c \<le> depth (run_calls env calls vdf) c"
proof (induction calls arbitrary: vdf)
  case Nil
  show ?case by simp
next
  case (Cons call calls)
  obtain self func copy_name where call: "call = (self, func, copy_name)"
    by (cases call) auto
  have "depth vdf c \<le> depth (frame_of (vDCMATH_apply env vdf self func copy_name)) c"
    by (rule depth_vDCMATH_apply)
  also have "\<dots> \<le> depth (run_calls env (call # calls) vdf) c"
    unfolding call run_calls.simps by (rule Cons.IH)
  finally show ?case .
qed

lemma history_body:
  "history (frame_of
      (if copy_name \<noteq> []
       then apply_copy vdf self sc copy_name step m
       else apply_inplace vdf self step m)) = history vdf"
proof -
  have "history (frame_of (apply_copy vdf self sc copy_name step m)) = history vdf"
    by (rule apply_copy_rel[where R = "\<lambda>a b. history b = history a"])
      (simp_all add: history_add_copy history_pad_step history_append_transformation
        history_share_catalog)
  moreover have "history (frame_of (apply_inplace vdf self step m)) = history vdf"
    by (rule apply_inplace_rel[where R = "\<lambda>a b. history b = history a"])
      (simp_all add: history_pad_step history_append_transformation
        history_update_catalog_erase)
  ultimately show ?thesis by simp
qed

lemma history_apply_try:
  "history (frame_of (apply_try env vdf self sc func copy_name)) =
     (if isl (apply_try env vdf self sc func copy_name) then history vdf
      else history vdf @ [apply_history_entry self func])"
proof (cases "get_data_types env (apply_probe env vdf self (str_replace ''{}'' self func))
             ''apply_test_feature''")
  case (Inl m)
  then show ?thesis by (simp add: apply_try_probe_fail)
next
  case (Inr ct)
  define body where "body =
      (if copy_name \<noteq> []
       then apply_copy vdf self sc copy_name (func, ct, to_category env ct)
              (scan vdf func - int (length (transformations sc)))
       else apply_inplace vdf self (func, ct, to_category env ct)
              (scan vdf func - int (length (transformations sc))))"
  have h: "history (frame_of body) = history vdf"
    unfolding body_def by (rule history_body)
  have eq: "apply_try env vdf self sc func copy_name =
      then_do body (\<lambda>vdf4. Inr (add_to_history vdf4 (apply_history_entry self func)))"
    unfolding body_def by (rule apply_try_probe_ok[OF Inr])
  show ?thesis
  proof (cases body)
    case (Inl err)
    then show ?thesis using h unfolding eq by (cases err) simp
  next
    case (Inr u)
    then show ?thesis using h unfolding eq by (simp add: add_to_history_def)
  qed
qed

lemma history_vDCMATH_apply:
  "history (frame_of (vDCMATH_apply env vdf self func copy_name)) =
     (if isl (vDCMATH_apply env vdf self func copy_name) then history vdf
      else history vdf @ [apply_history_entry self func])"
proof (cases "vcolumns vdf self")
  case None
  then show ?thesis by (simp add: vDCMATH_apply_def)
next
  case (Some sc)
  have "isl (vDCMATH_apply env vdf self func copy_name) =
        isl (apply_try env vdf self sc func copy_name)"
    using Some by (simp add: vDCMATH_apply_def split: sum.splits prod.splits)
  then show ?thesis
    using Some history_apply_try[of env vdf self sc func copy_name]
    by (simp add: frame_of_vDCMATH_apply)
qed

lemma history_run_calls: "prefix (history vdf) (history (run_calls env calls vdf))"
proof (induction calls arbitrary: vdf)
  case Nil
  show ?case by simp
next
  case (Cons call calls)
  obtain self func copy_name where call: "call = (self, func, copy_name)"
    by (cases call) auto
  have "prefix (history vdf) (history (frame_of (vDCMATH_apply env vdf self func copy_name)))"
    by (simp add: history_vDCMATH_apply)
  also have "prefix \<dots> (history (run_calls env (call # calls) vdf))"
    unfolding call run_calls.simps by (rule Cons.IH)
  finally show ?case .
qed

text \<open>Quoting twice is quoting once, as the spec asks.\<close>

lemma quote_ident_idempotent: "quote_ident (quote_ident column) = quote_ident column"
proof -
  have "2 \<le> length (quote_ident column) \<and> hd (quote_ident column) = dq \<and>
        last (quote_ident column) = dq"
    by (simp add: quote_ident_def)
  then show ?thesis
    by (subst quote_ident_def) simp
qed

lemma quote_ident_x [simp]: "quote_ident x_col = x_col"
  by (simp add: quote_ident_def x_col_def dq_def)

lemma quote_ident_y [simp]: "quote_ident y_col = y_col"
  by (simp add: quote_ident_def y_col_def dq_def)

lemma quote_ident_z [simp]: "quote_ident ''z'' = z_col"
  by (simp add: quote_ident_def z_col_def dq_def)

lemma sample_columns [simp]:
  "vcolumns sample_frame x_col =
     Some \<lparr>transformations = [(x_col, ''int'', ''int'')], catalog = 0\<rparr>"
  "vcolumns sample_frame y_col =
     Some \<lparr>transformations = [(y_col, ''int'', ''int''), (''{} + 1'', ''int'', ''int''),
       (''{} * 2'', ''int'', ''int'')], catalog = 1\<rparr>"
  "vcolumns sample_frame z_col = None"
  "columns sample_frame = [x_col, y_col]"
  "get_columns sample_frame = [x_col, y_col]"
  "history sample_frame = []"
  by (simp_all add: sample_frame_def get_columns_def x_col_def y_col_def z_col_def dq_def)

lemma sample_probe [simp]:
  "get_data_types sample_env q c = Inr ''int''"
  "to_category sample_env t = ''int''"
  "get_data_types failing_env q c = Inl ''Syntax error''"
  by (simp_all add: sample_env_def failing_env_def)

lemma cols_distinct [simp]: "x_col \<noteq> y_col" "y_col \<noteq> x_col" "z_col \<noteq> x_col" "z_col \<noteq> y_col"
  by (simp_all add: x_col_def y_col_def z_col_def)

lemma scan_unquoted: "scan sample_frame ''{} + y'' = 0"
  by (simp add: scan_def references_def getitem_def) (simp add: x_col_def y_col_def dq_def)

lemma scan_quoted_y: "scan sample_frame add_y = 3"
  by (simp add: scan_def references_def getitem_def add_y_def)
    (simp add: x_col_def y_col_def dq_def)

lemma scan_quoted_x: "scan sample_frame add_x = 1"
  by (simp add: scan_def references_def getitem_def add_x_def)
    (simp add: x_col_def y_col_def dq_def)

lemma scan_none: "scan sample_frame ''{} + 1'' = 0" "scan sample_frame ''1'' = 0"
  "scan sample_frame ''{} + {}'' = 0"
  by (simp_all add: scan_def references_def getitem_def) (simp_all add: x_col_def y_col_def dq_def)

text \<open>
  Claim C1. The code at the input of the claim: on \<open>"x"\<close> (depth 1) the template
  \<open>{} + y\<close> names the column \<open>"y"\<close> (depth 3) in unquoted form only. The test raises
  \<open>NameError\<close> for \<open>"y"\<close>, the loop leaves \<open>max_floor\<close> at 0, and the call returns with
  \<open>"x"\<close> at depth 2, without padding: the column is not counted.
\<close>

theorem C1_unquoted_reference_not_counted:
  "references y_col ''{} + y'' = Inl (NameError ''name re is not defined'')
   \<and> scan sample_frame ''{} + y'' = 0
   \<and> depth sample_frame y_col = 3
   \<and> \<not> isl (vDCMATH_apply sample_env sample_frame x_col ''{} + y'' [])
   \<and> chain (frame_of (vDCMATH_apply sample_env sample_frame x_col ''{} + y'' [])) x_col =
       [(x_col, ''int'', ''int''), (''{} + y'', ''int'', ''int'')]"
proof -
  have "references y_col ''{} + y'' = Inl (NameError ''name re is not defined'')"
    by (simp add: references_def) (simp add: y_col_def dq_def)
  moreover have "depth sample_frame y_col = 3"
    by (simp add: depth_def chain_def)
  moreover have "vDCMATH_apply sample_env sample_frame x_col ''{} + y'' [] = Inr
     (sample_frame\<lparr>vcolumns := (vcolumns sample_frame)(x_col \<mapsto>
           \<lparr>transformations = [(x_col, ''int'', ''int''), (''{} + y'', ''int'', ''int'')],
            catalog = next_catalog sample_frame\<rparr>),
         catalogs := (catalogs sample_frame)(next_catalog sample_frame := Map.empty),
         next_catalog := Suc (next_catalog sample_frame),
         history := history sample_frame @ [apply_history_entry x_col ''{} + y'']\<rparr>)"
    using apply_ok_inplace[of sample_frame x_col _ sample_env "''{} + y''" "''int''"]
    by (simp add: scan_unquoted)
  ultimately show ?thesis
    by (simp add: scan_unquoted chain_def)
qed

text \<open>Every call on a column with a non-empty chain has one of three outcomes.\<close>

lemma chain_nonempty:
  "chain vdf self \<noteq> [] \<longleftrightarrow> (\<exists>sc. vcolumns vdf self = Some sc \<and> transformations sc \<noteq> [])"
  by (auto simp: chain_def split: option.splits)

lemma not_isl_frame_of: "\<not> isl r \<Longrightarrow> r = Inr (frame_of r)"
  by (cases r) auto

lemma apply_outcomes:
  assumes sc: "vcolumns vdf self = Some sc" "transformations sc \<noteq> []"
  shows "(\<exists>m. vDCMATH_apply env vdf self func copy_name = Inl (QueryError m, vdf)) \<or>
    (\<exists>ct. get_data_types env (apply_probe env vdf self (str_replace ''{}'' self func))
             ''apply_test_feature'' = Inr ct \<and>
      (if copy_name = [] then
         vDCMATH_apply env vdf self func copy_name =
           Inr (vdf\<lparr>vcolumns := (vcolumns vdf)(self \<mapsto>
             \<lparr>transformations = transformations sc @
                replicate (nat (scan vdf func - int (length (transformations sc))))
                  (identity_step sc) @ [(func, ct, to_category env ct)],
              catalog = next_catalog vdf\<rparr>),
             catalogs := (catalogs vdf)(next_catalog vdf := Map.empty),
             next_catalog := Suc (next_catalog vdf),
             history := history vdf @ [apply_history_entry self func]\<rparr>)
       else
         quote_ident copy_name \<notin> set (columns vdf) \<and>
         vcolumns vdf (quote_ident copy_name) = None \<and>
         vDCMATH_apply env vdf self func copy_name =
           Inr (vdf\<lparr>columns := columns vdf @ [quote_ident copy_name],
             vcolumns := (vcolumns vdf)(quote_ident copy_name \<mapsto>
               \<lparr>transformations = transformations sc @
                  replicate (nat (scan vdf func - int (length (transformations sc))))
                    (identity_step sc) @ [(func, ct, to_category env ct)],
                catalog = catalog sc\<rparr>),
             catalogs := (catalogs vdf)(next_catalog vdf := catalogs vdf (catalog sc)),
             next_catalog := Suc (next_catalog vdf),
             history := history vdf @ [apply_history_entry self func]\<rparr>)))"
proof (cases "get_data_types env (apply_probe env vdf self (str_replace ''{}'' self func))
             ''apply_test_feature''")
  case (Inl m)
  show ?thesis using apply_fail_probe[OF sc(1) Inl, of copy_name] by blast
next
  case (Inr ct)
  show ?thesis
  proof (cases "copy_name = []")
    case True
    then show ?thesis using apply_ok_inplace[OF sc Inr] Inr by simp
  next
    case False
    show ?thesis
    proof (cases "quote_ident copy_name \<in> set (columns vdf) \<or>
                  vcolumns vdf (quote_ident copy_name) \<noteq> None")
      case True
      then show ?thesis using apply_fail_name[OF sc(1) Inr False] by blast
    next
      case fresh: False
      then have "quote_ident copy_name \<notin> set (columns vdf)"
        "vcolumns vdf (quote_ident copy_name) = None" by auto
      then show ?thesis using apply_ok_copy[OF sc Inr False] Inr False by simp
    qed
  qed
qed

text \<open>What a successful call without a copy name leaves behind, whatever the chain.\<close>

lemma inplace_success:
  assumes "vDCMATH_apply env vdf self func [] = Inr vdf'"
  shows "\<exists>ct sc'. get_data_types env (apply_probe env vdf self (str_replace ''{}'' self func))
             ''apply_test_feature'' = Inr ct \<and>
     vcolumns vdf' self = Some sc' \<and> transformations sc' \<noteq> [] \<and>
     last (transformations sc') = (func, ct, to_category env ct) \<and>
     catalogs vdf' (catalog sc') = Map.empty"
proof -
  obtain sc where sc: "vcolumns vdf self = Some sc"
    and tr: "apply_try env vdf self sc func [] = Inr vdf'"
    using assms by (auto simp: vDCMATH_apply_Inr)
  obtain ct where ct: "get_data_types env (apply_probe env vdf self (str_replace ''{}'' self func))
             ''apply_test_feature'' = Inr ct"
    using tr by (cases "get_data_types env (apply_probe env vdf self
      (str_replace ''{}'' self func)) ''apply_test_feature''") (auto simp: apply_try_probe_fail)
  define step where "step = (func, ct, to_category env ct)"
  from tr obtain u where u: "apply_inplace vdf self step
        (scan vdf func - int (length (transformations sc))) = Inr u"
    and vdf': "vdf' = add_to_history u (apply_history_entry self func)"
    unfolding apply_try_probe_ok[OF ct] step_def by (auto simp: then_do_Inr)
  from u obtain v2 v3 where v3: "append_transformation v2 self step = Inr v3"
    and u': "u = update_catalog_erase v3 [self]"
    unfolding apply_inplace_def by (auto simp: then_do_Inr)
  from v3 obtain c where c: "vcolumns v2 self = Some c"
    and v3': "v3 = v2\<lparr>vcolumns := (vcolumns v2)(self \<mapsto>
        c\<lparr>transformations := transformations c @ [step]\<rparr>)\<rparr>"
    by (auto simp: append_transformation_def split: option.splits)
  show ?thesis
    using ct by (simp add: vdf' u' v3' add_to_history_def step_def)
qed

lemma depth_pad_loop: "depth vdf c \<le> depth (frame_of (pad_loop k vdf target self)) c"
proof -
  have "\<forall>c. depth vdf c \<le> depth (frame_of (pad_loop k vdf target self)) c"
    by (rule pad_loop_rel[where R = "\<lambda>a b. \<forall>c. depth a c \<le> depth b c"])
      (auto simp: depth_pad_step intro: order_trans)
  then show ?thesis by blast
qed

lemma inplace_success_depth:
  assumes "vDCMATH_apply env vdf self func [] = Inr vdf'"
  shows "depth vdf self < depth vdf' self"
proof -
  obtain sc where sc: "vcolumns vdf self = Some sc"
    and tr: "apply_try env vdf self sc func [] = Inr vdf'"
    using assms by (auto simp: vDCMATH_apply_Inr)
  obtain ct where ct: "get_data_types env (apply_probe env vdf self (str_replace ''{}'' self func))
             ''apply_test_feature'' = Inr ct"
    using tr by (cases "get_data_types env (apply_probe env vdf self
      (str_replace ''{}'' self func)) ''apply_test_feature''") (auto simp: apply_try_probe_fail)
  define step where "step = (func, ct, to_category env ct)"
  define m where "m = scan vdf func - int (length (transformations sc))"
  from tr obtain u where u: "apply_inplace vdf self step m = Inr u"
    and vdf': "vdf' = add_to_history u (apply_history_entry self func)"
    unfolding apply_try_probe_ok[OF ct] step_def m_def by (auto simp: then_do_Inr)
  from u obtain v2 v3 where v2: "pad_loop (nat m) vdf self self = Inr v2"
    and v3: "append_transformation v2 self step = Inr v3"
    and u': "u = update_catalog_erase v3 [self]"
    unfolding apply_inplace_def by (auto simp: then_do_Inr)
  from v3 obtain c where c: "vcolumns v2 self = Some c"
    and v3': "v3 = v2\<lparr>vcolumns := (vcolumns v2)(self \<mapsto>
        c\<lparr>transformations := transformations c @ [step]\<rparr>)\<rparr>"
    by (auto simp: append_transformation_def split: option.splits)
  have "depth vdf self \<le> depth v2 self"
    using depth_pad_loop[of vdf self "nat m" self self] v2 by simp
  moreover have "depth v3 self = depth v2 self + 1"
    using c by (simp add: v3' depth_def chain_def)
  moreover have "depth vdf' self = depth v3 self"
    unfolding vdf' u' by (simp only: depth_add_to_history depth_update_catalog_erase)
  ultimately show ?thesis by simp
qed

text \<open>
  Claim C2. Stated for every call: the depth of every column is non-decreasing under any
  call of \<open>apply\<close>, returned or raised, and under any sequence of calls; a call on the
  column itself that returns raises its depth by \<open>1 + max(0, max_floor - depth)\<close>, where
  \<open>max_floor\<close> is what the loop over the columns found. It is 1 exactly when no deeper
  column is counted.
\<close>

theorem C2_depth_growth:
  "(\<forall>c. depth vdf c \<le> depth (frame_of (vDCMATH_apply env vdf self func copy_name)) c)
   \<and> (\<forall>c. depth vdf c \<le> depth (run_calls env calls vdf) c)
   \<and> (chain vdf self \<noteq> [] \<and> vDCMATH_apply env vdf self func [] = Inr vdf' \<longrightarrow>
        depth vdf' self =
          depth vdf self + nat (scan vdf func - int (depth vdf self)) + 1)"
proof (intro conjI allI impI)
  fix c
  show "depth vdf c \<le> depth (frame_of (vDCMATH_apply env vdf self func copy_name)) c"
    by (rule depth_vDCMATH_apply)
  show "depth vdf c \<le> depth (run_calls env calls vdf) c"
    by (rule depth_run_calls)
next
  assume a: "chain vdf self \<noteq> [] \<and> vDCMATH_apply env vdf self func [] = Inr vdf'"
  then obtain sc where sc: "vcolumns vdf self = Some sc" "transformations sc \<noteq> []"
    by (auto simp: chain_nonempty)
  from apply_outcomes[OF sc, of env func "[]"] a
  show "depth vdf' self = depth vdf self + nat (scan vdf func - int (depth vdf self)) + 1"
    using sc by (auto simp: depth_def chain_def)
qed

theorem C2_depth_growth_witness:
  "chain sample_frame x_col \<noteq> []
   \<and> vDCMATH_apply sample_env sample_frame x_col (''{} + 1'') [] =
       Inr (frame_of (vDCMATH_apply sample_env sample_frame x_col (''{} + 1'') []))
   \<and> depth sample_frame x_col = 1
   \<and> depth (frame_of (vDCMATH_apply sample_env sample_frame x_col (''{} + 1'') [])) x_col = 2
   \<and> depth sample_frame y_col
       \<le> depth (run_calls sample_env [(x_col, ''{} + 1'', [])] sample_frame) y_col"
proof -
  have ok: "\<not> isl (vDCMATH_apply sample_env sample_frame x_col (''{} + 1'') [])"
    using apply_ok_inplace[of sample_frame x_col _ sample_env "''{} + 1''" "''int''"]
    by simp
  have h: "chain sample_frame x_col \<noteq> [] \<and>
      vDCMATH_apply sample_env sample_frame x_col (''{} + 1'') [] =
       Inr (frame_of (vDCMATH_apply sample_env sample_frame x_col (''{} + 1'') []))"
    using not_isl_frame_of[OF ok] by (simp add: chain_def)
  have d: "depth sample_frame x_col = 1"
    by (simp add: depth_def chain_def)
  show ?thesis
    using C2_depth_growth[of sample_frame sample_env x_col "''{} + 1''" "[]"
        "[(x_col, ''{} + 1'', [])]"
        "frame_of (vDCMATH_apply sample_env sample_frame x_col (''{} + 1'') [])"] h d
    by (simp add: scan_none)
qed

text \<open>
  Claim C2 as the spec states it fails: a call on \<open>"x"\<close> (depth 1) whose template names
  \<open>"y"\<close> (depth 3) in quoted form returns and leaves \<open>"x"\<close> at depth 4, not 2.
\<close>

theorem C2_depth_jump_counterexample:
  "\<not> isl (vDCMATH_apply sample_env sample_frame x_col add_y [])
   \<and> depth sample_frame x_col = 1
   \<and> depth (frame_of (vDCMATH_apply sample_env sample_frame x_col add_y []))
        x_col = 4
   \<and> depth (frame_of (vDCMATH_apply sample_env sample_frame x_col add_y []))
        x_col \<noteq> depth sample_frame x_col + 1"
proof -
  have "vDCMATH_apply sample_env sample_frame x_col add_y [] = Inr
     (sample_frame\<lparr>vcolumns := (vcolumns sample_frame)(x_col \<mapsto>
           \<lparr>transformations = [(x_col, ''int'', ''int''), (''{}'', ''int'', ''int''),
              (''{}'', ''int'', ''int''), (add_y, ''int'', ''int'')],
            catalog = next_catalog sample_frame\<rparr>),
         catalogs := (catalogs sample_frame)(next_catalog sample_frame := Map.empty),
         next_catalog := Suc (next_catalog sample_frame),
         history := history sample_frame @
           [apply_history_entry x_col add_y]\<rparr>)"
    using apply_ok_inplace[of sample_frame x_col _ sample_env add_y "''int''"]
    by (simp add: scan_quoted_y identity_step_def numeral_3_eq_3 numeral_2_eq_2)
  then show ?thesis
    by (simp add: depth_def chain_def)
qed

text \<open>
  With a copy name the new column starts as a copy of the chain of the source column; it
  is padded with identity steps of the source column up to the larger of its own depth
  and the \<open>max_floor\<close> that the loop over the columns found, and then gets the real
  step.
\<close>

lemma copy_chain_padding:
  assumes "vcolumns vdf self = Some sc" and "transformations sc \<noteq> []"
    and "copy_name \<noteq> []"
    and "vDCMATH_apply env vdf self func copy_name = Inr vdf'"
  shows "(\<exists>ct. get_data_types env (apply_probe env vdf self (str_replace ''{}'' self func))
             ''apply_test_feature'' = Inr ct \<and>
           chain vdf' (quote_ident copy_name) =
             transformations sc @
             replicate (nat (scan vdf func - int (length (transformations sc))))
               (''{}'', fst (snd (last (transformations sc))),
                snd (snd (last (transformations sc)))) @
             [(func, ct, to_category env ct)])
    \<and> int (length (transformations sc @
             replicate (nat (scan vdf func - int (length (transformations sc))))
               (''{}'', fst (snd (last (transformations sc))),
                snd (snd (last (transformations sc)))))) =
        max (int (length (transformations sc))) (scan vdf func)"
proof -
  from apply_outcomes[OF assms(1,2), of env func copy_name] assms(3,4)
  show ?thesis
    by (auto simp: chain_def identity_step_def)
qed

text \<open>
  Claim C3. The code at the input of the claim: a copy \<open>"z"\<close> of \<open>"x"\<close> (depth 1) under
  the template \<open>{} + y\<close>, which names \<open>"y"\<close> (depth 3) in unquoted form only. The call
  returns with the chain of \<open>"x"\<close> and the real step, without an identity step: the depth
  of \<open>"z"\<close> before the real step is 1, not 3. With \<open>"y"\<close> named in quoted form the same
  call pads the copy to depth 3 first.
\<close>

theorem C3_copy_unquoted_not_padded:
  "depth sample_frame x_col = 1
   \<and> depth sample_frame y_col = 3
   \<and> \<not> isl (vDCMATH_apply sample_env sample_frame x_col ''{} + y'' ''z'')
   \<and> chain (frame_of (vDCMATH_apply sample_env sample_frame x_col ''{} + y'' ''z'')) z_col =
       [(x_col, ''int'', ''int''), (''{} + y'', ''int'', ''int'')]
   \<and> \<not> isl (vDCMATH_apply sample_env sample_frame x_col add_y ''z'')
   \<and> chain (frame_of (vDCMATH_apply sample_env sample_frame x_col add_y ''z'')) z_col =
       [(x_col, ''int'', ''int''), (''{}'', ''int'', ''int''), (''{}'', ''int'', ''int''),
        (add_y, ''int'', ''int'')]"
proof -
  have d: "depth sample_frame x_col = 1" "depth sample_frame y_col = 3"
    by (simp_all add: depth_def chain_def)
  have "vDCMATH_apply sample_env sample_frame x_col ''{} + y'' ''z'' = Inr
     (sample_frame\<lparr>columns := columns sample_frame @ [z_col],
         vcolumns := (vcolumns sample_frame)(z_col \<mapsto>
           \<lparr>transformations = [(x_col, ''int'', ''int''), (''{} + y'', ''int'', ''int'')],
            catalog = 0\<rparr>),
         catalogs := (catalogs sample_frame)
           (next_catalog sample_frame := catalogs sample_frame 0),
         next_catalog := Suc (next_catalog sample_frame),
         history := history sample_frame @ [apply_history_entry x_col ''{} + y'']\<rparr>)"
    using apply_ok_copy[of sample_frame x_col _ sample_env "''{} + y''" "''int''" "''z''"]
    by (simp add: scan_unquoted)
  moreover have "vDCMATH_apply sample_env sample_frame x_col add_y ''z'' = Inr
     (sample_frame\<lparr>columns := columns sample_frame @ [z_col],
         vcolumns := (vcolumns sample_frame)(z_col \<mapsto>
           \<lparr>transformations = [(x_col, ''int'', ''int''), (''{}'', ''int'', ''int''),
              (''{}'', ''int'', ''int''), (add_y, ''int'', ''int'')],
            catalog = 0\<rparr>),
         catalogs := (catalogs sample_frame)
           (next_catalog sample_frame := catalogs sample_frame 0),
         next_catalog := Suc (next_catalog sample_frame),
         history := history sample_frame @ [apply_history_entry x_col add_y]\<rparr>)"
    using apply_ok_copy[of sample_frame x_col _ sample_env add_y "''int''" "''z''"]
    by (simp add: scan_quoted_y identity_step_def numeral_3_eq_3 numeral_2_eq_2)
  ultimately show ?thesis
    using d by (simp add: chain_def)
qed

text \<open>
  Claim C4, amended. A call of \<open>apply\<close> on a column itself (no copy name) that returns
  leaves the column in the frame with a longer chain that ends with the new step, and
  with no statistic cached. A call with a copy name that returns clears nothing: the
  source column keeps its chain and every statistic it had cached, and the new column,
  whose chain got the step, reads the same statistics.
\<close>

theorem C4_cache_cleared_without_copy:
  "(vDCMATH_apply env vdf self func [] = Inr vdf' \<longrightarrow>
      vcolumns vdf' self \<noteq> None
      \<and> depth vdf self < depth vdf' self
      \<and> fst (last (chain vdf' self)) = func
      \<and> cachedStat vdf' self name = None)
   \<and> (chain vdf self \<noteq> [] \<and> copy_name \<noteq> [] \<and>
       vDCMATH_apply env vdf self func copy_name = Inr vdf'' \<longrightarrow>
      chain vdf'' self = chain vdf self
      \<and> cachedStat vdf'' self name = cachedStat vdf self name
      \<and> depth vdf self < depth vdf'' (quote_ident copy_name)
      \<and> fst (last (chain vdf'' (quote_ident copy_name))) = func
      \<and> cachedStat vdf'' (quote_ident copy_name) name = cachedStat vdf self name)"
proof (intro conjI impI)
  assume a: "vDCMATH_apply env vdf self func [] = Inr vdf'"
  from inplace_success[OF a] obtain ct sc' where
    sc': "vcolumns vdf' self = Some sc'" "transformations sc' \<noteq> []"
      "last (transformations sc') = (func, ct, to_category env ct)"
      "catalogs vdf' (catalog sc') = Map.empty"
    by blast
  show "vcolumns vdf' self \<noteq> None" using sc' by simp
  show "depth vdf self < depth vdf' self" by (rule inplace_success_depth[OF a])
  show "fst (last (chain vdf' self)) = func" using sc' by (simp add: chain_def)
  show "cachedStat vdf' self name = None" using sc' by (simp add: cachedStat_def)
next
  assume b: "chain vdf self \<noteq> [] \<and> copy_name \<noteq> [] \<and>
       vDCMATH_apply env vdf self func copy_name = Inr vdf''"
  then obtain sc where sc: "vcolumns vdf self = Some sc" "transformations sc \<noteq> []"
    by (auto simp: chain_nonempty)
  from apply_outcomes[OF sc, of env func copy_name] b
  obtain ct where fresh: "vcolumns vdf (quote_ident copy_name) = None"
    and v: "vdf'' = vdf\<lparr>columns := columns vdf @ [quote_ident copy_name],
             vcolumns := (vcolumns vdf)(quote_ident copy_name \<mapsto>
               \<lparr>transformations = transformations sc @
                  replicate (nat (scan vdf func - int (length (transformations sc))))
                    (identity_step sc) @ [(func, ct, to_category env ct)],
                catalog = catalog sc\<rparr>),
             catalogs := (catalogs vdf)(next_catalog vdf := catalogs vdf (catalog sc)),
             next_catalog := Suc (next_catalog vdf),
             history := history vdf @ [apply_history_entry self func]\<rparr>"
    by auto
  have ne: "quote_ident copy_name \<noteq> self"
    using fresh sc by auto
  show "chain vdf'' self = chain vdf self"
    using sc ne by (simp add: v chain_def)
  show "cachedStat vdf'' self name = cachedStat vdf self name"
    using sc ne by (simp add: v cachedStat_def)
  show "depth vdf self < depth vdf'' (quote_ident copy_name)"
    using sc by (simp add: v depth_def chain_def)
  show "fst (last (chain vdf'' (quote_ident copy_name))) = func"
    by (simp add: v chain_def)
  show "cachedStat vdf'' (quote_ident copy_name) name = cachedStat vdf self name"
    using sc by (simp add: v cachedStat_def)
qed

theorem C4_cache_cleared_without_copy_witness:
  "cachedStat sample_frame x_col ''max'' = Some ''9''
   \<and> vDCMATH_apply sample_env sample_frame x_col ''{} + 1'' [] =
       Inr (frame_of (vDCMATH_apply sample_env sample_frame x_col ''{} + 1'' []))
   \<and> cachedStat (frame_of (vDCMATH_apply sample_env sample_frame x_col ''{} + 1'' []))
        x_col ''max'' = None
   \<and> depth (frame_of (vDCMATH_apply sample_env sample_frame x_col ''{} + 1'' [])) x_col = 2
   \<and> chain sample_frame y_col \<noteq> []
   \<and> vDCMATH_apply sample_env sample_frame y_col ''{} - 1'' ''z'' =
       Inr (frame_of (vDCMATH_apply sample_env sample_frame y_col ''{} - 1'' ''z''))
   \<and> chain (frame_of (vDCMATH_apply sample_env sample_frame y_col ''{} - 1'' ''z'')) y_col =
       chain sample_frame y_col"
proof -
  have ok: "\<not> isl (vDCMATH_apply sample_env sample_frame x_col ''{} + 1'' [])"
    using apply_ok_inplace[of sample_frame x_col _ sample_env "''{} + 1''" "''int''"]
    by simp
  have ok2: "\<not> isl (vDCMATH_apply sample_env sample_frame y_col ''{} - 1'' ''z'')"
    using apply_ok_copy[of sample_frame y_col _ sample_env "''{} - 1''" "''int''" "''z''"]
    by simp
  have c: "chain sample_frame y_col \<noteq> []"
    by (simp add: chain_def)
  have s: "cachedStat sample_frame x_col ''max'' = Some ''9''"
    by (simp add: cachedStat_def) (simp add: sample_frame_def)
  have d: "depth (frame_of (vDCMATH_apply sample_env sample_frame x_col ''{} + 1'' [])) x_col
      = 2"
    using apply_ok_inplace[of sample_frame x_col _ sample_env "''{} + 1''" "''int''"]
    by (simp add: scan_none depth_def chain_def)
  show ?thesis
    using C4_cache_cleared_without_copy[of sample_env sample_frame x_col "''{} + 1''"
        "frame_of (vDCMATH_apply sample_env sample_frame x_col ''{} + 1'' [])" "''max''"
        "[]" "frame_of (vDCMATH_apply sample_env sample_frame x_col ''{} + 1'' [])"]
      C4_cache_cleared_without_copy[of sample_env sample_frame y_col "''{} - 1''"
        "frame_of (vDCMATH_apply sample_env sample_frame y_col ''{} - 1'' ''z'')" "''max''"
        "''z''" "frame_of (vDCMATH_apply sample_env sample_frame y_col ''{} - 1'' ''z'')"]
      not_isl_frame_of[OF ok] not_isl_frame_of[OF ok2] c s d
    by simp
qed

text \<open>
  Claim C4 as the spec states it fails: a call on \<open>"x"\<close> with a copy name returns, the
  chain of the new column \<open>"z"\<close> got the step, and the statistic that was cached for
  \<open>"x"\<close> is still read on \<open>"x"\<close> and is read on \<open>"z"\<close> too.
\<close>

theorem C4_copy_keeps_cache_counterexample:
  "cachedStat sample_frame x_col ''max'' = Some ''9''
   \<and> \<not> isl (vDCMATH_apply sample_env sample_frame x_col ''{} + 1'' ''z'')
   \<and> chain (frame_of (vDCMATH_apply sample_env sample_frame x_col ''{} + 1'' ''z'')) z_col =
       [(x_col, ''int'', ''int''), (''{} + 1'', ''int'', ''int'')]
   \<and> cachedStat (frame_of (vDCMATH_apply sample_env sample_frame x_col ''{} + 1'' ''z''))
        x_col ''max'' = Some ''9''
   \<and> cachedStat (frame_of (vDCMATH_apply sample_env sample_frame x_col ''{} + 1'' ''z''))
        z_col ''max'' = Some ''9''"
proof -
  have s: "catalogs sample_frame 0 ''max'' = Some ''9''" "next_catalog sample_frame = 2"
    by (simp_all add: sample_frame_def)
  have "vDCMATH_apply sample_env sample_frame x_col ''{} + 1'' ''z'' = Inr
     (sample_frame\<lparr>columns := columns sample_frame @ [z_col],
         vcolumns := (vcolumns sample_frame)(z_col \<mapsto>
           \<lparr>transformations = [(x_col, ''int'', ''int''), (''{} + 1'', ''int'', ''int'')],
            catalog = 0\<rparr>),
         catalogs := (catalogs sample_frame)
           (next_catalog sample_frame := catalogs sample_frame 0),
         next_catalog := Suc (next_catalog sample_frame),
         history := history sample_frame @ [apply_history_entry x_col ''{} + 1'']\<rparr>)"
    using apply_ok_copy[of sample_frame x_col _ sample_env "''{} + 1''" "''int''" "''z''"]
    by (simp add: scan_none)
  then show ?thesis
    using s by (simp add: chain_def cachedStat_def)
qed

text \<open>
  Claim C5. A call of \<open>apply\<close> that raises, on a column whose chain is not empty (as the
  data model has it), leaves the frame as it was, and what it raises is a \<open>QueryError\<close>;
  a probe query that fails makes the call raise, with the database's message in the
  error.
\<close>

theorem C5_failed_apply_leaves_frame:
  assumes "chain vdf self \<noteq> []"
  shows "(vDCMATH_apply env vdf self func copy_name = Inl (e, vdf') \<longrightarrow>
            vdf' = vdf \<and> (\<exists>m. e = QueryError m))
    \<and> (get_data_types env (apply_probe env vdf self (str_replace ''{}'' self func))
             ''apply_test_feature'' = Inl m \<longrightarrow>
         vDCMATH_apply env vdf self func copy_name =
           Inl (QueryError (m @ [nl] @ ''Error when applying the func '' @ [sq] @ ''x -> '' @
                  str_replace ''{}'' self func @ [sq] @ '' '' @
                  ''to '' @ [sq] @ str_replace [dq] [] self @ [sq]), vdf))"
proof -
  from assms obtain sc where sc: "vcolumns vdf self = Some sc" "transformations sc \<noteq> []"
    by (auto simp: chain_nonempty)
  have "vDCMATH_apply env vdf self func copy_name = Inl (e, vdf') \<longrightarrow>
            vdf' = vdf \<and> (\<exists>m. e = QueryError m)"
    using apply_outcomes[OF sc, of env func copy_name] by (auto split: if_splits)
  moreover have "get_data_types env (apply_probe env vdf self (str_replace ''{}'' self func))
             ''apply_test_feature'' = Inl m \<longrightarrow>
         vDCMATH_apply env vdf self func copy_name =
           Inl (QueryError (m @ [nl] @ ''Error when applying the func '' @ [sq] @ ''x -> '' @
                  str_replace ''{}'' self func @ [sq] @ '' '' @
                  ''to '' @ [sq] @ str_replace [dq] [] self @ [sq]), vdf)"
    using apply_fail_probe[OF sc(1), of env func m copy_name] by blast
  ultimately show ?thesis by blast
qed

theorem C5_failed_apply_leaves_frame_witness:
  "chain sample_frame x_col \<noteq> []
   \<and> isl (vDCMATH_apply failing_env sample_frame x_col ''{} +'' ''z'')
   \<and> frame_of (vDCMATH_apply failing_env sample_frame x_col ''{} +'' ''z'') = sample_frame
   \<and> cachedStat (frame_of (vDCMATH_apply failing_env sample_frame x_col ''{} +'' ''z''))
        x_col ''max'' = Some ''9''"
proof -
  have c: "chain sample_frame x_col \<noteq> []"
    by (simp add: chain_def)
  have p: "get_data_types failing_env
      (apply_probe failing_env sample_frame x_col (str_replace ''{}'' x_col ''{} +''))
      ''apply_test_feature'' = Inl ''Syntax error''"
    by simp
  have "cachedStat sample_frame x_col ''max'' = Some ''9''"
    by (simp add: cachedStat_def) (simp add: sample_frame_def)
  then show ?thesis
    using C5_failed_apply_leaves_frame[OF c, of failing_env "''{} +''" "''z''" _ _
        "''Syntax error''"] c p
    by simp
qed

text \<open>
  Claim C6, amended. \<open>apply\<close> does not count placeholder markers and has no
  \<open>InvalidStep\<close> error. On a column whose chain is not empty, a call without a copy name
  raises exactly when the probe query fails, and a call with a copy name exactly when
  the probe fails or the name is taken, whatever the template; a call that returns has
  stored the template as it was given.
\<close>

theorem C6_apply_ignores_placeholder_count:
  assumes "chain vdf self \<noteq> []"
  shows "isl (vDCMATH_apply env vdf self func []) =
           isl (get_data_types env (apply_probe env vdf self (str_replace ''{}'' self func))
                  ''apply_test_feature'')
    \<and> (copy_name \<noteq> [] \<longrightarrow>
         isl (vDCMATH_apply env vdf self func copy_name) =
           (isl (get_data_types env (apply_probe env vdf self (str_replace ''{}'' self func))
                  ''apply_test_feature'')
            \<or> quote_ident copy_name \<in> set (columns vdf)
            \<or> vcolumns vdf (quote_ident copy_name) \<noteq> None))
    \<and> (\<forall>vdf'. vDCMATH_apply env vdf self func [] = Inr vdf' \<longrightarrow>
          fst (last (chain vdf' self)) = func)
    \<and> (\<forall>vdf'. copy_name \<noteq> [] \<and> vDCMATH_apply env vdf self func copy_name = Inr vdf' \<longrightarrow>
          fst (last (chain vdf' (quote_ident copy_name))) = func)
    \<and> (\<forall>e vdf'. vDCMATH_apply env vdf self func copy_name = Inl (e, vdf') \<longrightarrow>
          (\<exists>m. e = QueryError m))"
proof -
  from assms obtain sc where sc: "vcolumns vdf self = Some sc" "transformations sc \<noteq> []"
    by (auto simp: chain_nonempty)
  let ?probe = "get_data_types env (apply_probe env vdf self (str_replace ''{}'' self func))
                  ''apply_test_feature''"
  have a: "isl (vDCMATH_apply env vdf self func []) = isl ?probe"
  proof (cases ?probe)
    case (Inl m)
    then show ?thesis using apply_fail_probe[OF sc(1) Inl, of "[]"] by simp
  next
    case (Inr ct)
    then show ?thesis using apply_ok_inplace[OF sc Inr] by simp
  qed
  have b: "copy_name \<noteq> [] \<longrightarrow>
         isl (vDCMATH_apply env vdf self func copy_name) =
           (isl ?probe \<or> quote_ident copy_name \<in> set (columns vdf)
            \<or> vcolumns vdf (quote_ident copy_name) \<noteq> None)"
  proof
    assume ne: "copy_name \<noteq> []"
    show "isl (vDCMATH_apply env vdf self func copy_name) =
           (isl ?probe \<or> quote_ident copy_name \<in> set (columns vdf)
            \<or> vcolumns vdf (quote_ident copy_name) \<noteq> None)"
    proof (cases ?probe)
      case (Inl m)
      then show ?thesis using apply_fail_probe[OF sc(1) Inl, of copy_name] by simp
    next
      case (Inr ct)
      show ?thesis
      proof (cases "quote_ident copy_name \<in> set (columns vdf) \<or>
                    vcolumns vdf (quote_ident copy_name) \<noteq> None")
        case True
        then show ?thesis using apply_fail_name[OF sc(1) Inr ne] Inr by auto
      next
        case False
        then have "quote_ident copy_name \<notin> set (columns vdf)"
          "vcolumns vdf (quote_ident copy_name) = None" by auto
        then show ?thesis using apply_ok_copy[OF sc Inr ne] Inr by simp
      qed
    qed
  qed
  have c: "\<forall>vdf'. vDCMATH_apply env vdf self func [] = Inr vdf' \<longrightarrow>
          fst (last (chain vdf' self)) = func"
    using inplace_success[of env vdf self func] by (fastforce simp: chain_def)
  have d: "\<forall>vdf'. copy_name \<noteq> [] \<and> vDCMATH_apply env vdf self func copy_name = Inr vdf' \<longrightarrow>
          fst (last (chain vdf' (quote_ident copy_name))) = func"
    using apply_outcomes[OF sc, of env func copy_name] by (auto simp: chain_def)
  have e: "\<forall>e vdf'. vDCMATH_apply env vdf self func copy_name = Inl (e, vdf') \<longrightarrow>
          (\<exists>m. e = QueryError m)"
    using apply_outcomes[OF sc, of env func copy_name] by (auto split: if_splits)
  show ?thesis using a b c d e by blast
qed

theorem C6_apply_ignores_placeholder_count_witness:
  "chain sample_frame x_col \<noteq> []
   \<and> count_placeholders ''{} + {}'' = 2
   \<and> \<not> isl (vDCMATH_apply sample_env sample_frame x_col ''{} + {}'' [])
   \<and> isl (vDCMATH_apply failing_env sample_frame x_col ''{} + 1'' [])"
proof -
  have c: "chain sample_frame x_col \<noteq> []"
    by (simp add: chain_def)
  show ?thesis
    using C6_apply_ignores_placeholder_count[OF c, of sample_env "''{} + {}''" "[]"]
      C6_apply_ignores_placeholder_count[OF c, of failing_env "''{} + 1''" "[]"] c
    by simp
qed

text \<open>
  Claim C6 as the spec states it fails: a template without a placeholder marker, and a
  template with two of them, are both accepted and stored.
\<close>

theorem C6_no_invalid_step_counterexample:
  "count_placeholders ''1'' = 0
   \<and> \<not> isl (vDCMATH_apply sample_env sample_frame x_col ''1'' [])
   \<and> chain (frame_of (vDCMATH_apply sample_env sample_frame x_col ''1'' [])) x_col =
       [(x_col, ''int'', ''int''), (''1'', ''int'', ''int'')]
   \<and> count_placeholders ''{} + {}'' = 2
   \<and> \<not> isl (vDCMATH_apply sample_env sample_frame x_col ''{} + {}'' [])
   \<and> chain (frame_of (vDCMATH_apply sample_env sample_frame x_col ''{} + {}'' [])) x_col =
       [(x_col, ''int'', ''int''), (''{} + {}'', ''int'', ''int'')]"
proof -
  have "vDCMATH_apply sample_env sample_frame x_col ''1'' [] = Inr
     (sample_frame\<lparr>vcolumns := (vcolumns sample_frame)(x_col \<mapsto>
           \<lparr>transformations = [(x_col, ''int'', ''int''), (''1'', ''int'', ''int'')],
            catalog = next_catalog sample_frame\<rparr>),
         catalogs := (catalogs sample_frame)(next_catalog sample_frame := Map.empty),
         next_catalog := Suc (next_catalog sample_frame),
         history := history sample_frame @ [apply_history_entry x_col ''1'']\<rparr>)"
    using apply_ok_inplace[of sample_frame x_col _ sample_env "''1''" "''int''"]
    by (simp add: scan_none)
  moreover have "vDCMATH_apply sample_env sample_frame x_col ''{} + {}'' [] = Inr
     (sample_frame\<lparr>vcolumns := (vcolumns sample_frame)(x_col \<mapsto>
           \<lparr>transformations = [(x_col, ''int'', ''int''), (''{} + {}'', ''int'', ''int'')],
            catalog = next_catalog sample_frame\<rparr>),
         catalogs := (catalogs sample_frame)(next_catalog sample_frame := Map.empty),
         next_catalog := Suc (next_catalog sample_frame),
         history := history sample_frame @ [apply_history_entry x_col ''{} + {}'']\<rparr>)"
    using apply_ok_inplace[of sample_frame x_col _ sample_env "''{} + {}''" "''int''"]
    by (simp add: scan_none)
  ultimately show ?thesis
    by (simp add: chain_def)
qed

text \<open>
  Claim C8. A call of \<open>apply\<close> that returns has appended exactly one entry to the history
  log, after the entries that were there; a call that raises leaves the log as it was;
  so under any sequence of calls the log only grows at its end.
\<close>

theorem C8_history_append_only:
  "history (frame_of (vDCMATH_apply env vdf self func copy_name)) =
     (if isl (vDCMATH_apply env vdf self func copy_name) then history vdf
      else history vdf @ [apply_history_entry self func])
   \<and> prefix (history vdf) (history (run_calls env calls vdf))"
  using history_vDCMATH_apply[of env vdf self func copy_name]
    history_run_calls[of vdf env calls]
  by simp

theorem C8_history_append_only_witness:
  "history (frame_of (vDCMATH_apply sample_env sample_frame x_col ''{} + 1'' ''z'')) =
     [apply_history_entry x_col ''{} + 1'']
   \<and> history (frame_of (vDCMATH_apply failing_env sample_frame x_col ''{} + 1'' [])) = []"
proof -
  have ok: "\<not> isl (vDCMATH_apply sample_env sample_frame x_col ''{} + 1'' ''z'')"
    using apply_ok_copy[of sample_frame x_col _ sample_env "''{} + 1''" "''int''" "''z''"]
    by simp
  have ko: "isl (vDCMATH_apply failing_env sample_frame x_col ''{} + 1'' [])"
    using apply_fail_probe[of sample_frame x_col _ failing_env "''{} + 1''" "''Syntax error''"
        "[]"]
    by simp
  show ?thesis
    using C8_history_append_only[of sample_env sample_frame x_col "''{} + 1''" "''z''" "[]"]
      C8_history_append_only[of failing_env sample_frame x_col "''{} + 1''" "[]" "[]"] ok ko
    by simp
qed

text \<open>
  Claim C9. After a call of \<open>apply\<close> with a copy name that returns, the new column and
  the source column hold the same catalog: a statistic stored on either is read on the
  other, and the new column reads every statistic the source column had cached before
  the call, although its chain is the longer by the new step.
\<close>

theorem C9_copy_shares_catalog:
  assumes "chain vdf self \<noteq> []" and "copy_name \<noteq> []"
    and "vDCMATH_apply env vdf self func copy_name = Inr vdf'"
  shows "cachedStat (setCachedStat vdf' self name v) (quote_ident copy_name) name = Some v
    \<and> cachedStat (setCachedStat vdf' (quote_ident copy_name) name v) self name = Some v
    \<and> cachedStat vdf' (quote_ident copy_name) name' = cachedStat vdf self name'
    \<and> map_option catalog (vcolumns vdf' (quote_ident copy_name)) =
        map_option catalog (vcolumns vdf' self)
    \<and> vcolumns vdf' (quote_ident copy_name) \<noteq> None
    \<and> depth vdf self < depth vdf' (quote_ident copy_name)
    \<and> fst (last (chain vdf' (quote_ident copy_name))) = func"
proof -
  from assms(1) obtain sc where sc: "vcolumns vdf self = Some sc" "transformations sc \<noteq> []"
    by (auto simp: chain_nonempty)
  from apply_outcomes[OF sc, of env func copy_name] assms(2,3)
  obtain ct where fresh: "vcolumns vdf (quote_ident copy_name) = None"
    and vdf': "vdf' = vdf\<lparr>columns := columns vdf @ [quote_ident copy_name],
             vcolumns := (vcolumns vdf)(quote_ident copy_name \<mapsto>
               \<lparr>transformations = transformations sc @
                  replicate (nat (scan vdf func - int (length (transformations sc))))
                    (identity_step sc) @ [(func, ct, to_category env ct)],
                catalog = catalog sc\<rparr>),
             catalogs := (catalogs vdf)(next_catalog vdf := catalogs vdf (catalog sc)),
             next_catalog := Suc (next_catalog vdf),
             history := history vdf @ [apply_history_entry self func]\<rparr>"
    by auto
  have ne: "quote_ident copy_name \<noteq> self"
    using fresh sc by auto
  show ?thesis
    using sc ne
    by (simp add: vdf' cachedStat_def setCachedStat_def depth_def chain_def)
qed

theorem C9_copy_shares_catalog_witness:
  "chain sample_frame x_col \<noteq> []
   \<and> vDCMATH_apply sample_env sample_frame x_col ''{} + 1'' ''z'' =
       Inr (frame_of (vDCMATH_apply sample_env sample_frame x_col ''{} + 1'' ''z''))
   \<and> cachedStat (frame_of (vDCMATH_apply sample_env sample_frame x_col ''{} + 1'' ''z''))
        z_col ''max'' = Some ''9''
   \<and> cachedStat
        (setCachedStat (frame_of (vDCMATH_apply sample_env sample_frame x_col ''{} + 1'' ''z''))
           z_col ''min'' ''0'') x_col ''min'' = Some ''0''"
proof -
  have c: "chain sample_frame x_col \<noteq> []"
    by (simp add: chain_def)
  have ok: "\<not> isl (vDCMATH_apply sample_env sample_frame x_col ''{} + 1'' ''z'')"
    using apply_ok_copy[of sample_frame x_col _ sample_env "''{} + 1''" "''int''" "''z''"]
    by simp
  have "cachedStat sample_frame x_col ''max'' = Some ''9''"
    by (simp add: cachedStat_def) (simp add: sample_frame_def)
  then show ?thesis
    using C9_copy_shares_catalog[OF c _ not_isl_frame_of[OF ok], of "''min''" "''0''" "''max''"]
      c not_isl_frame_of[OF ok]
    by simp
qed

text \<open>
  Claim C10. For a column whose category is neither \<open>vmap\<close> nor \<open>complex\<close>,
  \<open>apply_fun\<close> with \<open>len\<close> or \<open>length\<close> is \<open>apply\<close> with the template \<open>LENTGH({})\<close>, which
  a call that returns has stored as the last step; \<open>get_len\<close> on the same column returns
  a query and an \<open>init_transf\<close> built with \<open>LENGTH\<close>. The two names differ.
\<close>

theorem C10_len_function_names:
  assumes "vcolumns vdf self = Some sc" and "category sc = Inr cat"
    and "cat \<noteq> ''vmap''" and "cat \<noteq> ''complex''"
    and "func = ''len'' \<or> func = ''length''"
  shows "apply_fun_expr func cat x = ''LENTGH({})''
    \<and> vDCMATH_apply_fun env vdf self func x = vDCMATH_apply env vdf self ''LENTGH({})'' []
    \<and> (\<forall>vdf'. vDCMATH_apply_fun env vdf self func x = Inr vdf' \<longrightarrow>
          fst (last (chain vdf' self)) = ''LENTGH({})'')
    \<and> get_len_fun cat = ''LENGTH''
    \<and> vDCMATH_get_len env vdf self init =
        Inr ([nl] @ ''            (SELECT '' @
             [nl] @ ''                '' @ (''LENGTH('' @ self @ '')'') @ '' AS '' @
               quote_ident (butlast (tl self) @ ''.length'') @ '' '' @
             [nl] @ ''            FROM '' @ genSQL env vdf @ '') VERTICAPY_SUBTABLE'',
             quote_ident (butlast (tl self) @ ''.length''),
             ''LENGTH('' @ init @ '')'')
    \<and> apply_fun_expr func cat x \<noteq> get_len_fun cat @ ''({})''"
proof -
  have u: "upper ''LENTGH'' = ''LENTGH''"
    by (simp add: upper_def upper_char_def)
  have e: "apply_fun_expr func cat x = ''LENTGH({})''"
  proof -
    from assms(5) consider "func = ''len''" | "func = ''length''" by blast
    then show ?thesis
    proof cases
      case 1
      then show ?thesis using assms(3,4) by (simp add: apply_fun_expr_def u)
    next
      case 2
      then show ?thesis using assms(3,4) by (simp add: apply_fun_expr_def u)
    qed
  qed
  have f: "vDCMATH_apply_fun env vdf self func x = vDCMATH_apply env vdf self ''LENTGH({})'' []"
    using assms(1,2) e by (simp add: vDCMATH_apply_fun_def)
  have l: "\<forall>vdf'. vDCMATH_apply_fun env vdf self func x = Inr vdf' \<longrightarrow>
          fst (last (chain vdf' self)) = ''LENTGH({})''"
    unfolding f using inplace_success[of env vdf self "''LENTGH({})''"]
    by (fastforce simp: chain_def)
  have g: "get_len_fun cat = ''LENGTH''"
    using assms(3,4) by (simp add: get_len_fun_def)
  have q: "vDCMATH_get_len env vdf self init =
        Inr ([nl] @ ''            (SELECT '' @
             [nl] @ ''                '' @ (''LENGTH('' @ self @ '')'') @ '' AS '' @
               quote_ident (butlast (tl self) @ ''.length'') @ '' '' @
             [nl] @ ''            FROM '' @ genSQL env vdf @ '') VERTICAPY_SUBTABLE'',
             quote_ident (butlast (tl self) @ ''.length''),
             ''LENGTH('' @ init @ '')'')"
    using assms(1,2) g by (simp add: vDCMATH_get_len_def Let_def)
  have n: "apply_fun_expr func cat x \<noteq> get_len_fun cat @ ''({})''"
    by (simp add: e g)
  show ?thesis
    by (intro conjI) (rule e f l g q n)+
qed

theorem C10_len_function_names_witness:
  "vcolumns sample_frame x_col =
     Some \<lparr>transformations = [(x_col, ''int'', ''int'')], catalog = 0\<rparr>
   \<and> category \<lparr>transformations = [(x_col, ''int'', ''int'')], catalog = 0\<rparr> = Inr ''int''
   \<and> apply_fun_expr ''length'' ''int'' (IsNumber ''2'') = ''LENTGH({})''
   \<and> get_len_fun ''int'' = ''LENGTH''
   \<and> fst (last (chain (frame_of
        (vDCMATH_apply_fun sample_env sample_frame x_col ''length'' (IsNumber ''2''))) x_col)) =
       ''LENTGH({})''"
proof -
  have sc: "vcolumns sample_frame x_col =
     Some \<lparr>transformations = [(x_col, ''int'', ''int'')], catalog = 0\<rparr>"
    by simp
  have cat: "category \<lparr>transformations = [(x_col, ''int'', ''int'')], catalog = 0\<rparr> = Inr ''int''"
    by (simp add: category_def)
  have ok: "\<not> isl (vDCMATH_apply sample_env sample_frame x_col ''LENTGH({})'' [])"
    using apply_ok_inplace[of sample_frame x_col _ sample_env "''LENTGH({})''" "''int''"]
    by simp
  note t = C10_len_function_names[OF sc cat, of "''length''" "IsNumber ''2''" sample_env]
  have "vDCMATH_apply_fun sample_env sample_frame x_col ''length'' (IsNumber ''2'') =
      vDCMATH_apply sample_env sample_frame x_col ''LENTGH({})'' []"
    using t by simp
  then have "vDCMATH_apply_fun sample_env sample_frame x_col ''length'' (IsNumber ''2'') =
      Inr (frame_of (vDCMATH_apply_fun sample_env sample_frame x_col ''length''
        (IsNumber ''2'')))"
    using not_isl_frame_of[OF ok] by simp
  then show ?thesis using t sc cat by simp
qed

lemma eval_addsD:
  assumes "eval_adds env" "vDataFrame_eval env vdf name expr = Inr vdf'"
  shows "quote_ident name \<in> set (columns vdf')" "set (columns vdf) \<subseteq> set (columns vdf')"
  using assms unfolding eval_adds_def by blast+

lemma moments_columns:
  assumes ev: "eval_adds env"
    and m: "analytic_moments env vdf f c0 by name random_nb = Inr u"
  shows "set (helper_columns f c0 random_nb) \<subseteq> set (columns u)"
proof -
  let ?mean = "helper_name c0 ''mean'' random_nb"
  let ?median = "helper_name c0 ''median'' random_nb"
  let ?std = "helper_name c0 ''std'' random_nb"
  let ?count = "helper_name c0 ''count'' random_nb"
  from m obtain v1 v2 where
    first: "(if f = ''mad''
         then vDataFrame_eval env vdf ?median (''MEDIAN('' @ c0 @ '') OVER ('' @ by @ '')'')
         else vDataFrame_eval env vdf ?mean (''AVG('' @ c0 @ '') OVER ('' @ by @ '')'')) = Inr v1"
    and second: "(if f \<notin> set [''aad'', ''mad''] then
           then_do
             (vDataFrame_eval env v1 ?std (''STDDEV('' @ c0 @ '') OVER ('' @ by @ '')''))
             (\<lambda>vdf'. vDataFrame_eval env vdf' ?count
                      (''COUNT('' @ c0 @ '') OVER ('' @ by @ '')''))
         else Inr v1) = Inr v2"
    and third: "(if f = ''kurtosis'' then
          vDataFrame_eval env v2 name (kurtosis_expr c0 ?mean ?std ?count by)
        else if f = ''skewness'' then
          vDataFrame_eval env v2 name (skewness_expr c0 ?mean ?std ?count by)
        else if f = ''jb'' then
          vDataFrame_eval env v2 name (jb_expr c0 ?mean ?std ?count by)
        else if f = ''aad'' then
          vDataFrame_eval env v2 name
            (''AVG(ABS('' @ c0 @ '' - '' @ ?mean @ '')) OVER ('' @ by @ '')'')
        else if f = ''mad'' then
          vDataFrame_eval env v2 name
            (''AVG(ABS('' @ c0 @ '' - '' @ ?median @ '')) OVER ('' @ by @ '')'')
        else Inr v2) = Inr u"
    unfolding analytic_moments_def Let_def then_do_Inr by blast
  have s3: "set (columns v2) \<subseteq> set (columns u)"
    using third eval_addsD(2)[OF ev] by (auto split: if_splits)
  show ?thesis
  proof (cases "f \<in> set [''kurtosis'', ''skewness'', ''jb'']")
    case True
    then have mean: "vDataFrame_eval env vdf ?mean (''AVG('' @ c0 @ '') OVER ('' @ by @ '')'')
        = Inr v1"
      using first by auto
    from True second obtain w where
      std: "vDataFrame_eval env v1 ?std (''STDDEV('' @ c0 @ '') OVER ('' @ by @ '')'') = Inr w"
      and count: "vDataFrame_eval env w ?count (''COUNT('' @ c0 @ '') OVER ('' @ by @ '')'')
        = Inr v2"
      by (auto simp: then_do_Inr)
    have "quote_ident ?mean \<in> set (columns v2)"
      using eval_addsD[OF ev mean] eval_addsD[OF ev std] eval_addsD[OF ev count] by blast
    moreover have "quote_ident ?std \<in> set (columns v2)"
      using eval_addsD[OF ev std] eval_addsD[OF ev count] by blast
    moreover have "quote_ident ?count \<in> set (columns v2)"
      using eval_addsD[OF ev count] by blast
    ultimately show ?thesis using True s3 by (auto simp: helper_columns_def)
  next
    case False
    note nf = False
    show ?thesis
    proof (cases "f = ''aad''")
      case True
      then have "v2 = v1" using second by simp
      moreover have "quote_ident ?mean \<in> set (columns v1)"
        using True first eval_addsD(1)[OF ev] by auto
      ultimately show ?thesis using True s3 by (auto simp: helper_columns_def)
    next
      case na: False
      show ?thesis
      proof (cases "f = ''mad''")
        case True
        then have "v2 = v1" using second by simp
        moreover have "quote_ident ?median \<in> set (columns v1)"
          using True first eval_addsD(1)[OF ev] by auto
        ultimately show ?thesis using True s3 by (auto simp: helper_columns_def)
      next
        case False
        then show ?thesis using nf na by (simp add: helper_columns_def)
      qed
    qed
  qed
qed

lemma exclude_helpers_Inr:
  assumes "exclude_helpers u f cols' random_nb = Inr vdf'"
    and "f \<in> set [''kurtosis'', ''skewness'', ''jb'', ''aad'', ''mad'']"
  shows "cols' \<noteq> [] \<and>
    vdf' = u\<lparr>exclude_columns := exclude_columns u @ helper_columns f (hd cols') random_nb\<rparr>"
proof (cases cols')
  case Nil
  then show ?thesis using assms by (simp add: exclude_helpers_def)
next
  case (Cons c0 cs)
  then show ?thesis using assms
    by (auto simp: exclude_helpers_def helper_columns_def split: if_splits)
qed

lemma analytic_success:
  assumes a: "vDFMATH_analytic env vdf func cols by order_by name offset x_smoothing add_count
            random_nb = Inr vdf'"
    and fc: "format_colnames env vdf cols by = Inr (cols', by')"
    and f: "f = verticapy_agg_name env (lower (lower func))"
    and five: "f \<in> set [''kurtosis'', ''skewness'', ''jb'', ''aad'', ''mad'']"
  shows "\<exists>u byc. analytic_moments env vdf f (hd cols') byc name random_nb = Inr u \<and>
           exclude_helpers u f cols' random_nb = Inr vdf'"
proof -
  have fam: "f \<in> set [''max'', ''min'', ''avg'', ''sum'', ''count'', ''stddev'', ''median'',
                         ''variance'', ''unique'', ''top'', ''kurtosis'', ''skewness'', ''mad'',
                         ''aad'', ''range'', ''prod'', ''jb'', ''iqr'', ''sem'']"
    using five by auto
  define byc where "byc = (if by' \<noteq> [] then ''PARTITION BY '' @ str_join '', '' by' else [])"
  from a fc have ne: "name \<noteq> []"
    by (auto simp: vDFMATH_analytic_def split: if_splits)
  from a fc ne fam obtain u where
    agg: "analytic_aggregates env vdf f cols' byc (get_sort_syntax env order_by) name add_count
            random_nb = Inr u"
    and ex: "exclude_helpers u f cols' random_nb = Inr vdf'"
    unfolding vDFMATH_analytic_def Let_def f byc_def
    by (simp add: then_do_Inr del: set_simps) blast
  from agg five have "analytic_moments env vdf f (hd cols') byc name random_nb = Inr u"
    unfolding analytic_aggregates_def
    by (cases cols') (simp_all split: if_splits)
  then show ?thesis using ex by blast
qed

text \<open>
  Claim C7. After a call of \<open>analytic\<close> that returns, with one of the five moment
  functions, the quoted names of its helper columns are in the exclude set of the frame
  and so are left out of \<open>get_columns\<close>; they are columns of the frame whenever \<open>eval\<close>
  keeps what the spec says of it.
\<close>

theorem C7_helper_columns_excluded:
  assumes "vDFMATH_analytic env vdf func cols by order_by name offset x_smoothing add_count
            random_nb = Inr vdf'"
    and "format_colnames env vdf cols by = Inr (cols', by')"
    and "f = verticapy_agg_name env (lower (lower func))"
    and "f \<in> set [''kurtosis'', ''skewness'', ''jb'', ''aad'', ''mad'']"
  shows "cols' \<noteq> []
    \<and> helper_columns f (hd cols') random_nb \<noteq> []
    \<and> set (helper_columns f (hd cols') random_nb) \<subseteq> set (exclude_columns vdf')
    \<and> set (helper_columns f (hd cols') random_nb) \<inter> set (get_columns vdf') = {}
    \<and> (eval_adds env \<longrightarrow>
         set (helper_columns f (hd cols') random_nb) \<subseteq> set (columns vdf'))"
proof -
  from analytic_success[OF assms] obtain u byc where
    m: "analytic_moments env vdf f (hd cols') byc name random_nb = Inr u"
    and ex: "exclude_helpers u f cols' random_nb = Inr vdf'"
    by blast
  from exclude_helpers_Inr[OF ex assms(4)] have ne: "cols' \<noteq> []"
    and vdf': "vdf' = u\<lparr>exclude_columns :=
        exclude_columns u @ helper_columns f (hd cols') random_nb\<rparr>"
    by simp_all
  have h: "helper_columns f (hd cols') random_nb \<noteq> []"
    using assms(4) by (auto simp: helper_columns_def)
  have e: "set (helper_columns f (hd cols') random_nb) \<subseteq> set (exclude_columns vdf')"
    by (simp add: vdf')
  have g: "set (helper_columns f (hd cols') random_nb) \<inter> set (get_columns vdf') = {}"
    using e by (auto simp: get_columns_def)
  have c: "eval_adds env \<longrightarrow>
         set (helper_columns f (hd cols') random_nb) \<subseteq> set (columns vdf')"
    using moments_columns[OF _ m] by (simp add: vdf')
  show ?thesis using ne h e g c by blast
qed

lemma sample_eval_adds: "eval_adds sample_env"
  by (auto simp: eval_adds_def sample_env_def sample_eval_def split: if_splits)

lemma sample_helper_columns:
  "helper_columns ''kurtosis'' x_col ''42'' =
     [[dq] @ ''x_mean_42'' @ [dq], [dq] @ ''x_std_42'' @ [dq], [dq] @ ''x_count_42'' @ [dq]]"
  by (simp add: helper_columns_def helper_name_def quote_ident_def x_col_def dq_def)

lemma sample_analytic_ok:
  "\<not> isl (vDFMATH_analytic sample_env sample_frame ''kurtosis'' [''x''] [] (OrderList [])
      ''k'' ''1'' ''0.5'' True ''42'')"
proof -
  have l: "lower (lower ''kurtosis'') = ''kurtosis''"
    by (simp add: lower_def lower_char_def)
  have fc: "format_colnames sample_env sample_frame [''x''] [] = Inr ([x_col], [])"
    by (simp add: sample_env_def quote_ident_def x_col_def dq_def)
  have ev: "vDataFrame_eval sample_env = sample_eval"
    "verticapy_agg_name sample_env f = f" "get_sort_syntax sample_env ob = []" for f ob
    by (simp_all add: sample_env_def)
  have m: "\<not> isl (analytic_moments sample_env sample_frame ''kurtosis'' x_col [] ''k'' ''42'')"
    unfolding analytic_moments_def Let_def ev
    by (simp add: sample_eval_def helper_name_def quote_ident_def x_col_def y_col_def dq_def)
  then obtain u where u: "analytic_moments sample_env sample_frame ''kurtosis'' x_col [] ''k''
      ''42'' = Inr u"
    by (cases "analytic_moments sample_env sample_frame ''kurtosis'' x_col [] ''k'' ''42''") auto
  show ?thesis
    unfolding vDFMATH_analytic_def Let_def fc l ev
    by (simp add: analytic_aggregates_def u exclude_helpers_def)
qed

theorem C7_helper_columns_excluded_witness:
  "vDFMATH_analytic sample_env sample_frame ''kurtosis'' [''x''] [] (OrderList [])
      ''k'' ''1'' ''0.5'' True ''42'' =
     Inr (frame_of (vDFMATH_analytic sample_env sample_frame ''kurtosis'' [''x''] []
       (OrderList []) ''k'' ''1'' ''0.5'' True ''42''))
   \<and> format_colnames sample_env sample_frame [''x''] [] = Inr ([x_col], [])
   \<and> ''kurtosis'' = verticapy_agg_name sample_env (lower (lower ''kurtosis''))
   \<and> eval_adds sample_env
   \<and> set [[dq] @ ''x_mean_42'' @ [dq], [dq] @ ''x_std_42'' @ [dq], [dq] @ ''x_count_42'' @ [dq]]
       \<subseteq> set (exclude_columns (frame_of (vDFMATH_analytic sample_env sample_frame
            ''kurtosis'' [''x''] [] (OrderList []) ''k'' ''1'' ''0.5'' True ''42'')))
   \<and> set [[dq] @ ''x_mean_42'' @ [dq], [dq] @ ''x_std_42'' @ [dq], [dq] @ ''x_count_42'' @ [dq]]
       \<subseteq> set (columns (frame_of (vDFMATH_analytic sample_env sample_frame
            ''kurtosis'' [''x''] [] (OrderList []) ''k'' ''1'' ''0.5'' True ''42'')))"
proof -
  have fc: "format_colnames sample_env sample_frame [''x''] [] = Inr ([x_col], [])"
    by (simp add: sample_env_def quote_ident_def x_col_def dq_def)
  have f: "''kurtosis'' = verticapy_agg_name sample_env (lower (lower ''kurtosis''))"
    by (simp add: sample_env_def lower_def lower_char_def)
  have five: "''kurtosis'' \<in> set [''kurtosis'', ''skewness'', ''jb'', ''aad'', ''mad'']"
    by simp
  note t = C7_helper_columns_excluded[OF not_isl_frame_of[OF sample_analytic_ok] fc f five]
  show ?thesis
    using t not_isl_frame_of[OF sample_analytic_ok] fc f sample_eval_adds
    unfolding list.sel sample_helper_columns
    by blast
qed

end
